theory Spec2Isabelle
  imports Complex_Main "HOL-Library.Multiset" "HOL-Library.Sublist"
begin

section \<open>JavaScript values\<close>

text \<open>
  The plugin's constructor receives a configuration of unknown shape and inspects it with
  \<^verbatim>\<open>typeof\<close>, \<^verbatim>\<open>Array.isArray\<close>, \<^verbatim>\<open>instanceof RegExp\<close> and property reads, so the
  configuration is modelled as an untyped JavaScript value. A regular expression is a
  mutable object, shared by reference: the value is the reference, and the object lives in
  a store (below). An array may be sparse: \<^verbatim>\<open>None\<close> is a hole, as in \<^verbatim>\<open>[a, , b]\<close> or
  \<^verbatim>\<open>new Array(2)\<close>. An object is the list of its properties, a number is a real
  (\<^verbatim>\<open>NaN\<close> and the infinities are left out) and a function value is opaque.
\<close>

datatype jsval =
    JUndefined
  | JNull
  | JBool bool
  | JNum real
  | JStr string
  | JRegExp nat
  | JArray "jsval option list"
  | JObject "(string \<times> jsval) list"
  | JFunction

text \<open>Error objects: \<^verbatim>\<open>new Error(message)\<close>, and the \<^verbatim>\<open>TypeError\<close> of the runtime.\<close>

datatype js_error = Error string | TypeError string

fun message :: "js_error \<Rightarrow> string" where
  "message (Error m) = m"
| "message (TypeError m) = m"

fun typeof :: "jsval \<Rightarrow> string" where
  "typeof JUndefined = ''undefined''"
| "typeof JNull = ''object''"
| "typeof (JBool b) = ''boolean''"
| "typeof (JNum n) = ''number''"
| "typeof (JStr s) = ''string''"
| "typeof (JRegExp k) = ''object''"
| "typeof (JArray xs) = ''object''"
| "typeof (JObject ps) = ''object''"
| "typeof JFunction = ''function''"

text \<open>Truthiness, as \<^verbatim>\<open>!v\<close> and \<^verbatim>\<open>if (v)\<close> read it.\<close>

fun truthy :: "jsval \<Rightarrow> bool" where
  "truthy JUndefined = False"
| "truthy JNull = False"
| "truthy (JBool b) = b"
| "truthy (JNum n) = (n \<noteq> 0)"
| "truthy (JStr s) = (s \<noteq> [])"
| "truthy (JRegExp k) = True"
| "truthy (JArray xs) = True"
| "truthy (JObject ps) = True"
| "truthy JFunction = True"

fun isArray :: "jsval \<Rightarrow> bool" where
  "isArray (JArray xs) = True"
| "isArray v = False"

fun instanceof_RegExp :: "jsval \<Rightarrow> bool" where
  "instanceof_RegExp (JRegExp k) = True"
| "instanceof_RegExp v = False"

text \<open>The index properties of an array, holes included.\<close>

fun elements :: "jsval \<Rightarrow> jsval option list" where
  "elements (JArray xs) = xs"
| "elements v = []"

text \<open>
  Reading the property \<^verbatim>\<open>v.name\<close>. On \<^verbatim>\<open>undefined\<close> and \<^verbatim>\<open>null\<close> the read raises a
  \<^verbatim>\<open>TypeError\<close>; an object yields its own property or \<^verbatim>\<open>undefined\<close>; every other value
  yields \<^verbatim>\<open>undefined\<close> for the property names the plugin reads
  (\<^verbatim>\<open>rules\<close>, \<^verbatim>\<open>permissions\<close>, \<^verbatim>\<open>patterns\<close>), which no built-in prototype defines.
\<close>

fun get_prop :: "jsval \<Rightarrow> string \<Rightarrow> js_error + jsval" where
  "get_prop JUndefined name =
     Inl (TypeError (''Cannot read properties of undefined (reading '' @ [CHR 0x27] @ name
                     @ [CHR 0x27] @ '')''))"
| "get_prop JNull name =
     Inl (TypeError (''Cannot read properties of null (reading '' @ [CHR 0x27] @ name
                     @ [CHR 0x27] @ '')''))"
| "get_prop (JObject ps) name =
     (case map_of ps name of None \<Rightarrow> Inr JUndefined | Some v \<Rightarrow> Inr v)"
| "get_prop v name = Inr JUndefined"

section \<open>Rendering a rule index\<close>

text \<open>The template literal \<^verbatim>\<open>${index}\<close> renders the array index in decimal.\<close>

definition digit_char :: "nat \<Rightarrow> char" where
  "digit_char d = ''0123456789'' ! d"

function show_nat :: "nat \<Rightarrow> string" where
  "show_nat n = (if n < 10 then [digit_char n] else show_nat (n div 10) @ [digit_char (n mod 10)])"
  by pat_completeness auto
termination
  by (relation "measure (\<lambda>n. n)") auto

declare show_nat.simps [simp del]

section \<open>The rule set: \<^verbatim>\<open>SetFilePermissionsPlugin.constructor\<close>\<close>

definition plugin_name :: string where
  "plugin_name = ''SetFilePermissionsPlugin''"

text \<open>
  A normalised rule, the element type of the private field \<^verbatim>\<open>#rules\<close>. Both fields hold
  whatever the configuration held: the constructor checks neither the type of
  \<^verbatim>\<open>permissions\<close> nor the elements of a \<^verbatim>\<open>patterns\<close> array, which is stored as it is,
  holes included.
\<close>

record rule =
  permissions :: jsval
  patterns :: "jsval option list"

text \<open>The callback of \<^verbatim>\<open>options.rules.map((rule, index) => ...)\<close>, lines 33 to 64.\<close>

definition normalize_rule :: "jsval \<Rightarrow> nat \<Rightarrow> js_error + rule" where
  "normalize_rule r index =
    (if typeof r \<noteq> ''object'' \<or> r = JNull then
       Inl (Error (plugin_name @ '': Rule at index '' @ show_nat index @ '' must be an object.''))
     else
      (case get_prop r ''permissions'' of
         Inl e \<Rightarrow> Inl e
       | Inr perm \<Rightarrow>
          (if typeof perm = ''undefined'' then
             Inl (Error (plugin_name @ '': \"permissions\" option is required for rule at index ''
                         @ show_nat index @ ''.''))
           else
            (case get_prop r ''patterns'' of
               Inl e \<Rightarrow> Inl e
             | Inr pats \<Rightarrow>
                (if typeof pats = ''undefined'' then
                   Inl (Error (plugin_name @ '': \"patterns\" option is required for rule at index ''
                               @ show_nat index @ ''.''))
                 else if typeof pats \<noteq> ''string'' \<and> \<not> instanceof_RegExp pats
                         \<and> \<not> isArray pats then
                   Inl (Error (plugin_name @ '': \"patterns\" option for rule at index ''
                               @ show_nat index
                               @ '' must be a string, RegExp, or an array of strings/RegExps.''))
                 else
                   Inr \<lparr> permissions = perm,
                         patterns = (if isArray pats then elements pats else [Some pats]) \<rparr>)))))"

text \<open>
  \<^verbatim>\<open>Array.prototype.map\<close> with the index: the elements are visited in order and the first
  exception thrown by the callback ends the construction. At a hole the callback is not
  called at all: the index is passed over and the result has a hole there too.
\<close>

fun map_rules :: "nat \<Rightarrow> jsval option list \<Rightarrow> js_error + rule option list" where
  "map_rules index [] = Inr []"
| "map_rules index (None # rs) =
     (case map_rules (Suc index) rs of
        Inl e \<Rightarrow> Inl e
      | Inr xs \<Rightarrow> Inr (None # xs))"
| "map_rules index (Some r # rs) =
     (case normalize_rule r index of
        Inl e \<Rightarrow> Inl e
      | Inr x \<Rightarrow>
         (case map_rules (Suc index) rs of
            Inl e \<Rightarrow> Inl e
          | Inr xs \<Rightarrow> Inr (Some x # xs)))"

text \<open>
  The constructor, lines 21 to 65: \<^verbatim>\<open>Inl\<close> is the exception it throws, \<^verbatim>\<open>Inr\<close> the array
  it assigns to \<^verbatim>\<open>#rules\<close>. It has no other effect.
\<close>

definition constructor :: "jsval \<Rightarrow> js_error + rule option list" where
  "constructor options =
    (if \<not> truthy options \<or> typeof options \<noteq> ''object'' \<or> options = JNull then
       Inl (Error (plugin_name @ '': Options object is required.''))
     else
      (case get_prop options ''rules'' of
         Inl e \<Rightarrow> Inl e
       | Inr rules \<Rightarrow>
          (if \<not> isArray rules then
             Inl (Error (plugin_name @ '': The \"rules\" option must be an array.''))
           else map_rules 0 (elements rules))))"

section \<open>Regular expression objects\<close>

text \<open>
  \<^verbatim>\<open>RegExp.prototype.test\<close> belongs to the runtime, not to the plugin. The expression
  engine is the field \<open>search\<close>: looking in a string from a start index, it yields the end
  index of the match it finds, if any. The protocol around it is the language's
  (\<^verbatim>\<open>RegExpBuiltinExec\<close>): an expression with the \<^verbatim>\<open>g\<close> or the \<^verbatim>\<open>y\<close> flag starts at its
  \<^verbatim>\<open>lastIndex\<close>, stores the end of the match there, and resets it to 0 when nothing is
  found; an expression without these flags starts at 0 and leaves \<^verbatim>\<open>lastIndex\<close> alone.
\<close>

record regexp =
  search :: "nat \<Rightarrow> string \<Rightarrow> nat option"
  flagged :: bool
  lastIndex :: nat

definition RegExp_test :: "regexp \<Rightarrow> string \<Rightarrow> bool \<times> regexp" where
  "RegExp_test re s =
    (let start = (if flagged re then lastIndex re else 0) in
     case search re start s of
       None \<Rightarrow> (False, if flagged re then re\<lparr> lastIndex := 0 \<rparr> else re)
     | Some e \<Rightarrow> (True, if flagged re then re\<lparr> lastIndex := e \<rparr> else re))"

text \<open>The store of the regular expression objects, by reference.\<close>

type_synonym regexps = "nat \<Rightarrow> regexp"

section \<open>Match resolution\<close>

text \<open>\<^verbatim>\<open>pattern.test(assetName)\<close> on the object a value refers to.\<close>

fun regexp_test :: "regexps \<Rightarrow> jsval \<Rightarrow> string \<Rightarrow> bool \<times> regexps" where
  "regexp_test rs (JRegExp k) s = (case RegExp_test (rs k) s of (b, re) \<Rightarrow> (b, rs(k := re)))"
| "regexp_test rs v s = (False, rs)"

text \<open>
  The callback of \<^verbatim>\<open>rule.patterns.some(...)\<close>, lines 91 to 98: a string pattern is
  compared with \<^verbatim>\<open>===\<close>, a regular expression is asked with \<^verbatim>\<open>test\<close>, and any other
  value matches nothing.
\<close>

definition pattern_matches :: "regexps \<Rightarrow> string \<Rightarrow> jsval \<Rightarrow> bool \<times> regexps" where
  "pattern_matches rs assetName pattern =
    (if typeof pattern = ''string'' then (JStr assetName = pattern, rs)
     else if instanceof_RegExp pattern then regexp_test rs pattern assetName
     else (False, rs))"

text \<open>
  \<^verbatim>\<open>Array.prototype.some\<close> over a rule's patterns: holes are passed over, and the first
  pattern that matches ends the search, so the patterns after it are not asked.
\<close>

fun patterns_some :: "regexps \<Rightarrow> string \<Rightarrow> jsval option list \<Rightarrow> bool \<times> regexps" where
  "patterns_some rs assetName [] = (False, rs)"
| "patterns_some rs assetName (None # ps) = patterns_some rs assetName ps"
| "patterns_some rs assetName (Some p # ps) =
     (case pattern_matches rs assetName p of
        (True, rs') \<Rightarrow> (True, rs')
      | (False, rs') \<Rightarrow> patterns_some rs' assetName ps)"

text \<open>
  \<^verbatim>\<open>this.#rules.find(...)\<close>, lines 90 to 99: the first rule one of whose patterns matches,
  or \<^verbatim>\<open>undefined\<close>. Unlike \<^verbatim>\<open>map\<close> and \<^verbatim>\<open>some\<close>, \<^verbatim>\<open>find\<close> visits a hole, with
  \<^verbatim>\<open>undefined\<close> for the rule, and the callback's \<^verbatim>\<open>rule.patterns\<close> then raises a
  \<^verbatim>\<open>TypeError\<close>.
\<close>

fun matchingRule :: "regexps \<Rightarrow> rule option list \<Rightarrow> string \<Rightarrow> (js_error + rule option) \<times> regexps" where
  "matchingRule rs [] assetName = (Inr None, rs)"
| "matchingRule rs (None # rules) assetName =
     (Inl (TypeError ''Cannot read properties of undefined (reading 'patterns')''), rs)"
| "matchingRule rs (Some r # rules) assetName =
     (case patterns_some rs assetName (patterns r) of
        (True, rs') \<Rightarrow> (Inr (Some r), rs')
      | (False, rs') \<Rightarrow> matchingRule rs' rules assetName)"

section \<open>The host: output file system, compilation, completion callback\<close>

text \<open>
  What a primitive may throw: an error object, with its message; or \<^verbatim>\<open>null\<close>, or
  \<^verbatim>\<open>undefined\<close>, which JavaScript allows as well; or any other value without a property
  \<^verbatim>\<open>message\<close> (a number, a string, a plain object).
\<close>

datatype thrown = ThrownError js_error | ThrownNull | ThrownUndefined | ThrownOther

text \<open>
  What one call \<^verbatim>\<open>chmod(path, mode, callback)\<close> of the host's primitive does with its
  callback. It invokes the callback once, at some tick of the event loop (tick 0 means
  synchronously, before \<^verbatim>\<open>chmod\<close> returns), with an error object or with nothing, as the
  callback's declared parameter type (\<^verbatim>\<open>NodeJS.ErrnoException | null\<close>) has it; or it
  throws and does not invoke the callback; or it returns and never invokes the callback.
  A primitive that invokes one callback several times, or both invokes it and throws, is
  outside this model.
\<close>

datatype chmod_behaviour =
    CallsBack nat "js_error option"
  | Throws thrown
  | NeverCallsBack

text \<open>
  The primitive may change the file system and may answer differently from call to call,
  so it is a function on the file system's state \<^typ>\<open>'fs\<close>: what the primitive received
  shows in the state it leaves.
\<close>

type_synonym 'fs chmod_fn = "'fs \<Rightarrow> string \<Rightarrow> jsval \<Rightarrow> chmod_behaviour \<times> 'fs"

text \<open>
  \<^verbatim>\<open>compiler.outputFileSystem\<close> when it is not \<^verbatim>\<open>null\<close>: its member \<^verbatim>\<open>chmod\<close> is
  \<^verbatim>\<open>Some f\<close> when \<^verbatim>\<open>typeof outputFileSystem.chmod === 'function'\<close> and \<^verbatim>\<open>None\<close> when the
  member is missing or holds anything else.
\<close>

record 'fs output_file_system =
  chmod :: "'fs chmod_fn option"
  files :: 'fs

text \<open>
  The part of \<^verbatim>\<open>compilation\<close> the hook touches: \<^verbatim>\<open>assets\<close> is
  \<^verbatim>\<open>Object.keys(compilation.assets)\<close>, in the order the runtime enumerates the keys.
\<close>

record compilation =
  assets :: "string list"
  warnings :: "js_error list"
  errors :: "js_error list"

text \<open>The hook's \<^verbatim>\<open>callback\<close>: not invoked, or invoked with what was thrown or with nothing.\<close>

datatype completion = NotCalled | Called "thrown option"

text \<open>
  What is observable once the event loop has run dry: the compilation with its two
  channels, the state of the file system and of the regular expressions, the calls made to
  the primitive (path and mode, in the order they were made), what the completion callback
  received, the exception that left the hook itself, if one did, and the exception that
  left the \<^verbatim>\<open>catch\<close> handler, if one did (an unhandled rejection).
\<close>

record 'fs hook_result =
  compilation_after :: compilation
  files_after :: "'fs option"
  regexps_after :: regexps
  chmod_calls :: "(string \<times> jsval) list"
  completion :: completion
  hook_throws :: "js_error option"
  unhandled_rejection :: "js_error option"

section \<open>The permission applier: the \<^verbatim>\<open>afterEmit\<close> hook of \<^verbatim>\<open>SetFilePermissionsPlugin.apply\<close>\<close>

text \<open>
  The callback of \<^verbatim>\<open>Object.keys(compilation.assets).map(...)\<close>, lines 89 to 122, threaded
  through the asset names in order. An asset without a matching rule yields \<^verbatim>\<open>null\<close>.
  For a matched asset the promise's executor runs at once: it joins the path and calls the
  primitive. The promise is recorded as the call together with what the primitive does
  with the callback; a throw inside the executor rejects that promise and the
  \<^verbatim>\<open>map\<close> goes on. An exception of the match resolution is not inside an executor: it
  ends the \<^verbatim>\<open>map\<close> and leaves the hook. The result is that exception, if any, the
  promises made, and the states of the regular expressions and of the file system.
  \<^verbatim>\<open>join\<close> of \<^verbatim>\<open>node:path\<close> is a parameter.
\<close>

fun map_assets ::
  "(string \<Rightarrow> string \<Rightarrow> string) \<Rightarrow> rule option list \<Rightarrow> string \<Rightarrow> 'fs chmod_fn \<Rightarrow> regexps \<Rightarrow> 'fs
    \<Rightarrow> string list
    \<Rightarrow> js_error option \<times> ((string \<times> jsval) \<times> chmod_behaviour) option list \<times> regexps \<times> 'fs" where
  "map_assets join rules outputPath chmod_f rs fs [] = (None, [], rs, fs)"
| "map_assets join rules outputPath chmod_f rs fs (assetName # rest) =
    (case matchingRule rs rules assetName of
       (Inl e, rs') \<Rightarrow> (Some e, [], rs', fs)
     | (Inr None, rs') \<Rightarrow>
         (case map_assets join rules outputPath chmod_f rs' fs rest of
            (t, ms, rs'', fs') \<Rightarrow> (t, None # ms, rs'', fs'))
     | (Inr (Some r), rs') \<Rightarrow>
         (let filePath = join outputPath assetName in
          case chmod_f fs filePath (permissions r) of
            (b, fs') \<Rightarrow>
              (case map_assets join rules outputPath chmod_f rs' fs' rest of
                 (t, ms, rs'', fs'') \<Rightarrow> (t, Some ((filePath, permissions r), b) # ms, rs'', fs''))))"

text \<open>\<^verbatim>\<open>.filter(Boolean)\<close> drops the \<^verbatim>\<open>null\<close> entries.\<close>

definition filter_Boolean :: "'a option list \<Rightarrow> 'a list" where
  "filter_Boolean ms = List.map_filter (\<lambda>m. m) ms"

text \<open>
  The callbacks the primitive invokes, in the order the event loop runs them: by tick, and
  within one tick in the order the calls were made.
\<close>

fun callback_of :: "(string \<times> jsval) \<times> chmod_behaviour \<Rightarrow> (nat \<times> string \<times> js_error option) option" where
  "callback_of ((filePath, mode), CallsBack t err) = Some (t, filePath, err)"
| "callback_of ((filePath, mode), Throws e) = None"
| "callback_of ((filePath, mode), NeverCallsBack) = None"

definition run_callbacks ::
  "((string \<times> jsval) \<times> chmod_behaviour) list \<Rightarrow> (nat \<times> string \<times> js_error option) list" where
  "run_callbacks mods = sort_key fst (List.map_filter callback_of mods)"

text \<open>The callback handed to the primitive, lines 107 to 116: what it pushes to the warnings.\<close>

fun callback_warning :: "nat \<times> string \<times> js_error option \<Rightarrow> js_error list" where
  "callback_warning (t, filePath, Some err) =
     [Error (plugin_name @ '': Could not set permissions for '' @ filePath
             @ ''. Error: '' @ message err)]"
| "callback_warning (t, filePath, None) = []"

text \<open>
  \<^verbatim>\<open>Promise.all(mods)\<close>: rejected with the reason of the first promise that rejects (all
  rejections happen inside the executors, so that is the first one in the array),
  otherwise pending for as long as one promise is, otherwise fulfilled.
\<close>

fun rejection :: "(string \<times> jsval) \<times> chmod_behaviour \<Rightarrow> thrown option" where
  "rejection (c, Throws e) = Some e"
| "rejection (c, CallsBack t err) = None"
| "rejection (c, NeverCallsBack) = None"

fun never_settles :: "(string \<times> jsval) \<times> chmod_behaviour \<Rightarrow> bool" where
  "never_settles (c, NeverCallsBack) = True"
| "never_settles (c, CallsBack t err) = False"
| "never_settles (c, Throws e) = False"

datatype promise_state = Fulfilled | Rejected thrown | Pending

definition Promise_all :: "((string \<times> jsval) \<times> chmod_behaviour) list \<Rightarrow> promise_state" where
  "Promise_all mods =
    (case List.map_filter rejection mods of
       e # es \<Rightarrow> Rejected e
     | [] \<Rightarrow> if list_ex never_settles mods then Pending else Fulfilled)"

text \<open>
  \<^verbatim>\<open>err.message\<close> in the \<^verbatim>\<open>catch\<close> handler, line 130, as the template literal prints
  it: the read raises a \<^verbatim>\<open>TypeError\<close> when what was thrown is \<^verbatim>\<open>null\<close> or
  \<^verbatim>\<open>undefined\<close>, and yields \<^verbatim>\<open>undefined\<close> for a value without that property.
\<close>

fun err_message :: "thrown \<Rightarrow> js_error + string" where
  "err_message (ThrownError e) = Inr (message e)"
| "err_message ThrownNull =
     Inl (TypeError ''Cannot read properties of null (reading 'message')'')"
| "err_message ThrownUndefined =
     Inl (TypeError ''Cannot read properties of undefined (reading 'message')'')"
| "err_message ThrownOther = Inr ''undefined''"

text \<open>The branch of lines 79 to 86: one warning, and the callback at once.\<close>

definition unsupported :: "compilation \<Rightarrow> regexps \<Rightarrow> 'fs option \<Rightarrow> 'fs hook_result" where
  "unsupported c rs fs =
    \<lparr> compilation_after = c\<lparr> warnings := warnings c @
         [Error (plugin_name
            @ '': The output file system does not support 'chmod'. Skipping permission changes.'')] \<rparr>,
      files_after = fs,
      regexps_after = rs,
      chmod_calls = [],
      completion = Called None,
      hook_throws = None,
      unhandled_rejection = None \<rparr>"

text \<open>
  Lines 125 to 134, once the promises are made: \<^verbatim>\<open>then\<close> invokes the callback with
  nothing; \<^verbatim>\<open>catch\<close> builds the message, and only then pushes the error and invokes the
  callback with what was thrown, so that an exception while building the message leaves
  the errors as they are and the callback not invoked.
\<close>

definition settle ::
  "compilation \<Rightarrow> ((string \<times> jsval) \<times> chmod_behaviour) list \<Rightarrow> regexps \<Rightarrow> 'fs \<Rightarrow> 'fs hook_result" where
  "settle c' mods rs fs =
    (case Promise_all mods of
       Fulfilled \<Rightarrow>
         \<lparr> compilation_after = c', files_after = Some fs, regexps_after = rs,
           chmod_calls = map fst mods, completion = Called None,
           hook_throws = None, unhandled_rejection = None \<rparr>
     | Rejected err \<Rightarrow>
         (case err_message err of
            Inl e \<Rightarrow>
              \<lparr> compilation_after = c', files_after = Some fs, regexps_after = rs,
                chmod_calls = map fst mods, completion = NotCalled,
                hook_throws = None, unhandled_rejection = Some e \<rparr>
          | Inr m \<Rightarrow>
              \<lparr> compilation_after = c'\<lparr> errors := errors c' @
                   [Error (plugin_name @ '': An unexpected error occurred. '' @ m)] \<rparr>,
                files_after = Some fs, regexps_after = rs,
                chmod_calls = map fst mods, completion = Called (Some err),
                hook_throws = None, unhandled_rejection = None \<rparr>)
     | Pending \<Rightarrow>
         \<lparr> compilation_after = c', files_after = Some fs, regexps_after = rs,
           chmod_calls = map fst mods, completion = NotCalled,
           hook_throws = None, unhandled_rejection = None \<rparr>)"

text \<open>
  The function tapped on \<^verbatim>\<open>compiler.hooks.afterEmit\<close>, lines 70 to 135, with
  \<^verbatim>\<open>this.#rules\<close>, \<^verbatim>\<open>compiler.options.output.path\<close>, the regular expression objects and
  \<^verbatim>\<open>compiler.outputFileSystem\<close> (\<^verbatim>\<open>None\<close> for \<^verbatim>\<open>null\<close>) as arguments. When the match
  resolution raises an exception, the exception leaves the hook: \<^verbatim>\<open>Promise.all\<close> is not
  reached and the callback is not invoked, while the callbacks of the operations issued
  before still run.
\<close>

definition afterEmit ::
  "(string \<Rightarrow> string \<Rightarrow> string) \<Rightarrow> rule option list \<Rightarrow> string \<Rightarrow> regexps
    \<Rightarrow> 'fs output_file_system option \<Rightarrow> compilation \<Rightarrow> 'fs hook_result" where
  "afterEmit join rules outputPath rs outputFileSystem c =
    (case outputFileSystem of
       None \<Rightarrow> unsupported c rs None
     | Some ofs \<Rightarrow>
        (case chmod ofs of
           None \<Rightarrow> unsupported c rs (Some (files ofs))
         | Some chmod_f \<Rightarrow>
            (case map_assets join rules outputPath chmod_f rs (files ofs) (assets c) of
               (t, ms, rs', fs') \<Rightarrow>
                 (let mods = filter_Boolean ms;
                      c' = c\<lparr> warnings := warnings c
                                @ concat (map callback_warning (run_callbacks mods)) \<rparr>
                  in case t of
                       Some e \<Rightarrow>
                         \<lparr> compilation_after = c', files_after = Some fs', regexps_after = rs',
                           chmod_calls = map fst mods, completion = NotCalled,
                           hook_throws = Some e, unhandled_rejection = None \<rparr>
                     | None \<Rightarrow> settle c' mods rs' fs'))))"

section \<open>Derived notions\<close>

text \<open>
  The promises of one invocation: each operation issued (resolved path and mode) with what
  the primitive does with its callback, in the order the operations are issued.
\<close>

definition issued ::
  "(string \<Rightarrow> string \<Rightarrow> string) \<Rightarrow> rule option list \<Rightarrow> string \<Rightarrow> 'fs chmod_fn \<Rightarrow> regexps \<Rightarrow> 'fs
    \<Rightarrow> string list \<Rightarrow> ((string \<times> jsval) \<times> chmod_behaviour) list" where
  "issued join rules outputPath chmod_f rs fs names =
     filter_Boolean (fst (snd (map_assets join rules outputPath chmod_f rs fs names)))"

text \<open>
  Match resolution alone, along the asset names: the assets it resolves, each with the rule
  it selects, up to the first exception. The primitive plays no part in it.
\<close>

fun resolved :: "regexps \<Rightarrow> rule option list \<Rightarrow> string list \<Rightarrow> (string \<times> rule) list" where
  "resolved rs rules [] = []"
| "resolved rs rules (assetName # rest) =
    (case matchingRule rs rules assetName of
       (Inl e, rs') \<Rightarrow> []
     | (Inr None, rs') \<Rightarrow> resolved rs' rules rest
     | (Inr (Some r), rs') \<Rightarrow> (assetName, r) # resolved rs' rules rest)"

text \<open>The operations owed to the resolved assets: the joined path and the rule's permissions.\<close>

definition operations ::
  "(string \<Rightarrow> string \<Rightarrow> string) \<Rightarrow> rule option list \<Rightarrow> string \<Rightarrow> regexps \<Rightarrow> string list
    \<Rightarrow> (string \<times> jsval) list" where
  "operations join rules outputPath rs names =
     map (\<lambda>(assetName, r). (join outputPath assetName, permissions r)) (resolved rs rules names)"

text \<open>
  The primitive itself, applied to a list of calls in order: the state it leaves, and its
  answers. These two do not mention the hook.
\<close>

fun received :: "'fs chmod_fn \<Rightarrow> 'fs \<Rightarrow> (string \<times> jsval) list \<Rightarrow> 'fs" where
  "received f fs [] = fs"
| "received f fs ((filePath, mode) # calls) = received f (snd (f fs filePath mode)) calls"

fun answers :: "'fs chmod_fn \<Rightarrow> 'fs \<Rightarrow> (string \<times> jsval) list \<Rightarrow> chmod_behaviour list" where
  "answers f fs [] = []"
| "answers f fs ((filePath, mode) # calls) =
     fst (f fs filePath mode) # answers f (snd (f fs filePath mode)) calls"

text \<open>How one operation ends.\<close>

fun succeeds :: "(string \<times> jsval) \<times> chmod_behaviour \<Rightarrow> bool" where
  "succeeds (c, CallsBack t None) = True"
| "succeeds (c, CallsBack t (Some e)) = False"
| "succeeds (c, Throws e) = False"
| "succeeds (c, NeverCallsBack) = False"

fun calls_back :: "(string \<times> jsval) \<times> chmod_behaviour \<Rightarrow> bool" where
  "calls_back (c, CallsBack t err) = True"
| "calls_back (c, Throws e) = False"
| "calls_back (c, NeverCallsBack) = False"

fun throws :: "(string \<times> jsval) \<times> chmod_behaviour \<Rightarrow> bool" where
  "throws (c, Throws e) = True"
| "throws (c, CallsBack t err) = False"
| "throws (c, NeverCallsBack) = False"

text \<open>The resolved path and the error of an operation that reports an error to its callback.\<close>

fun failure_of :: "(string \<times> jsval) \<times> chmod_behaviour \<Rightarrow> (string \<times> js_error) option" where
  "failure_of ((filePath, mode), CallsBack t (Some e)) = Some (filePath, e)"
| "failure_of ((filePath, mode), CallsBack t None) = None"
| "failure_of ((filePath, mode), Throws e) = None"
| "failure_of ((filePath, mode), NeverCallsBack) = None"

section \<open>The validation sequence and the normal form, as the specification words them\<close>

text \<open>
  These definitions follow the specification (section 4.1), not the code; the theorems
  compare the constructor with them. A value is an object when it is a plain object, an
  array or a regular expression; \<^verbatim>\<open>null\<close> is not.
\<close>

fun is_object :: "jsval \<Rightarrow> bool" where
  "is_object (JObject ps) = True"
| "is_object (JArray xs) = True"
| "is_object (JRegExp k) = True"
| "is_object v = False"

text \<open>The value of a field, \<^verbatim>\<open>undefined\<close> when the field is absent.\<close>

definition field :: "jsval \<Rightarrow> string \<Rightarrow> jsval" where
  "field v name = (case get_prop v name of Inr x \<Rightarrow> x | Inl e \<Rightarrow> JUndefined)"

text \<open>A single string, a single regular expression, or a sequence.\<close>

fun pattern_shape :: "jsval \<Rightarrow> bool" where
  "pattern_shape (JStr s) = True"
| "pattern_shape (JRegExp k) = True"
| "pattern_shape (JArray xs) = True"
| "pattern_shape v = False"

datatype rule_fault = NotAnObject | PermissionsMissing | PatternsMissing | PatternsInvalid

text \<open>Steps 3a to 3d: the first check a rule fails, if any.\<close>

definition spec_rule_fault :: "jsval \<Rightarrow> rule_fault option" where
  "spec_rule_fault r =
    (if \<not> is_object r then Some NotAnObject
     else if field r ''permissions'' = JUndefined then Some PermissionsMissing
     else if field r ''patterns'' = JUndefined then Some PatternsMissing
     else if \<not> pattern_shape (field r ''patterns'') then Some PatternsInvalid
     else None)"

text \<open>The message of each failure, for the rule at position \<open>i\<close>.\<close>

fun spec_rule_message :: "rule_fault \<Rightarrow> nat \<Rightarrow> string" where
  "spec_rule_message NotAnObject i =
     ''SetFilePermissionsPlugin: Rule at index '' @ show_nat i @ '' must be an object.''"
| "spec_rule_message PermissionsMissing i =
     ''SetFilePermissionsPlugin: \"permissions\" option is required for rule at index ''
       @ show_nat i @ ''.''"
| "spec_rule_message PatternsMissing i =
     ''SetFilePermissionsPlugin: \"patterns\" option is required for rule at index ''
       @ show_nat i @ ''.''"
| "spec_rule_message PatternsInvalid i =
     ''SetFilePermissionsPlugin: \"patterns\" option for rule at index '' @ show_nat i
       @ '' must be a string, RegExp, or an array of strings/RegExps.''"

text \<open>Step 4: the canonical form of a rule that passes the checks.\<close>

definition spec_normal_form :: "jsval \<Rightarrow> rule" where
  "spec_normal_form r =
    \<lparr> permissions = field r ''permissions'',
      patterns = (case field r ''patterns'' of JArray xs \<Rightarrow> xs | p \<Rightarrow> [Some p]) \<rparr>"

text \<open>
  The same rule object with a single string or regular expression under \<^verbatim>\<open>patterns\<close>
  replaced by the one-element array holding it.
\<close>

fun to_array_form :: "jsval \<Rightarrow> jsval" where
  "to_array_form (JObject ps) =
     JObject (map (\<lambda>(k, v). if k = ''patterns'' \<and> (typeof v = ''string'' \<or> instanceof_RegExp v)
                              then (k, JArray [Some v]) else (k, v)) ps)"
| "to_array_form v = v"

text \<open>A rule without the patterns that are neither strings nor regular expressions.\<close>

fun usable :: "jsval option \<Rightarrow> bool" where
  "usable None = False"
| "usable (Some p) = (typeof p = ''string'' \<or> instanceof_RegExp p)"

definition without_other_patterns :: "rule \<Rightarrow> rule" where
  "without_other_patterns r = r\<lparr> patterns := filter usable (patterns r) \<rparr>"

text \<open>
  A match as the specification defines it (section 3): a string pattern matches when it
  equals the asset name, a regular expression when the asset name satisfies the
  expression, that is, when the expression is found in the name; the match result is the
  first rule of the sequence with a pattern that matches.
\<close>

fun spec_pattern_matches :: "regexps \<Rightarrow> string \<Rightarrow> jsval option \<Rightarrow> bool" where
  "spec_pattern_matches rs assetName (Some (JStr s)) = (assetName = s)"
| "spec_pattern_matches rs assetName (Some (JRegExp k)) = (search (rs k) 0 assetName \<noteq> None)"
| "spec_pattern_matches rs assetName p = False"

definition spec_rule_matches :: "regexps \<Rightarrow> string \<Rightarrow> rule \<Rightarrow> bool" where
  "spec_rule_matches rs assetName r = list_ex (spec_pattern_matches rs assetName) (patterns r)"

definition spec_match_result :: "regexps \<Rightarrow> rule list \<Rightarrow> string \<Rightarrow> rule option" where
  "spec_match_result rs rules assetName = find (spec_rule_matches rs assetName) rules"

text \<open>The operation the specification owes an asset: none without a match result.\<close>

definition spec_operation ::
  "(string \<Rightarrow> string \<Rightarrow> string) \<Rightarrow> regexps \<Rightarrow> rule list \<Rightarrow> string \<Rightarrow> string \<Rightarrow> (string \<times> jsval) option" where
  "spec_operation join rs rules outputPath assetName =
     map_option (\<lambda>r. (join outputPath assetName, permissions r)) (spec_match_result rs rules assetName)"

text \<open>No pattern of the rules is a regular expression with the \<^verbatim>\<open>g\<close> or the \<^verbatim>\<open>y\<close> flag.\<close>

fun unflagged_pattern :: "regexps \<Rightarrow> jsval option \<Rightarrow> bool" where
  "unflagged_pattern rs (Some (JRegExp k)) = (\<not> flagged (rs k))"
| "unflagged_pattern rs p = True"

definition unflagged :: "regexps \<Rightarrow> rule list \<Rightarrow> bool" where
  "unflagged rs rules = list_all (\<lambda>r. list_all (unflagged_pattern rs) (patterns r)) rules"

text \<open>
  The exception that match resolution raises along the asset names, if it raises one, and
  the state in which it leaves the regular expressions.
\<close>

fun resolution_error :: "regexps \<Rightarrow> rule option list \<Rightarrow> string list \<Rightarrow> js_error option" where
  "resolution_error rs rules [] = None"
| "resolution_error rs rules (assetName # rest) =
    (case matchingRule rs rules assetName of
       (Inl e, rs') \<Rightarrow> Some e
     | (Inr m, rs') \<Rightarrow> resolution_error rs' rules rest)"

fun regexps_left :: "regexps \<Rightarrow> rule option list \<Rightarrow> string list \<Rightarrow> regexps" where
  "regexps_left rs rules [] = rs"
| "regexps_left rs rules (assetName # rest) =
    (case matchingRule rs rules assetName of
       (Inl e, rs') \<Rightarrow> rs'
     | (Inr m, rs') \<Rightarrow> regexps_left rs' rules rest)"

section \<open>A concrete build\<close>

text \<open>
  The scenario of the specification (section 8), used for the closed instances below: two rules
  keyed on file extensions, three assets, the output directory \<^verbatim>\<open>/out\<close>, path joining
  with a slash, and a file system whose state is the list of the calls it received.
\<close>

definition slash_join :: "string \<Rightarrow> string \<Rightarrow> string" where
  "slash_join dir name = dir @ ''/'' @ name"

text \<open>
  The engine of an expression like \<^verbatim>\<open>/\.js$/\<close>, a literal at the end of the input: from a
  start index it finds its match exactly when the rest of the string ends with the
  literal, and the match ends where the string ends. And the engine of the empty
  expression, which matches where it starts.
\<close>

definition ends_with :: "string \<Rightarrow> nat \<Rightarrow> string \<Rightarrow> nat option" where
  "ends_with ext start s =
     (if start \<le> length s \<and> suffix ext (drop start s) then Some (length s) else None)"

definition anywhere :: "nat \<Rightarrow> string \<Rightarrow> nat option" where
  "anywhere start s = (if start \<le> length s then Some start else None)"

text \<open>
  The regular expression objects of the examples: number 0 is \<^verbatim>\<open>/\.js$/\<close>, number 1 is
  \<^verbatim>\<open>/\.css$/\<close>, number 2 is \<^verbatim>\<open>/\.js$/g\<close>, and every other one is the empty expression.
\<close>

definition scenario_regexps :: regexps where
  "scenario_regexps k =
     (if k = 0 then \<lparr> search = ends_with ''.js'', flagged = False, lastIndex = 0 \<rparr>
      else if k = 1 then \<lparr> search = ends_with ''.css'', flagged = False, lastIndex = 0 \<rparr>
      else if k = 2 then \<lparr> search = ends_with ''.js'', flagged = True, lastIndex = 0 \<rparr>
      else \<lparr> search = anywhere, flagged = False, lastIndex = 0 \<rparr>)"

definition scenario_rules :: "rule list" where
  "scenario_rules =
    [\<lparr> permissions = JNum 493, patterns = [Some (JRegExp 0)] \<rparr>,
     \<lparr> permissions = JNum 420, patterns = [Some (JRegExp 1)] \<rparr>]"

definition scenario_compilation :: compilation where
  "scenario_compilation =
    \<lparr> assets = [''script.js'', ''style.css'', ''readme.txt''], warnings = [], errors = [] \<rparr>"

text \<open>A primitive that records the call and always succeeds, synchronously.\<close>

definition chmod_ok :: "(string \<times> jsval) list chmod_fn" where
  "chmod_ok fs filePath mode = (CallsBack 0 None, fs @ [(filePath, mode)])"

text \<open>
  A primitive that records the call, reports an error for style sheets, late, and succeeds,
  earlier, for the rest.
\<close>

definition chmod_denied_css :: "(string \<times> jsval) list chmod_fn" where
  "chmod_denied_css fs filePath mode =
    (if suffix ''.css'' filePath
     then (CallsBack 2 (Some (Error ''Permission denied'')), fs @ [(filePath, mode)])
     else (CallsBack 1 None, fs @ [(filePath, mode)]))"

text \<open>A primitive that throws an error object for scripts and reports an error for the rest.\<close>

definition chmod_throws_js :: "(string \<times> jsval) list chmod_fn" where
  "chmod_throws_js fs filePath mode =
    (if suffix ''.js'' filePath
     then (Throws (ThrownError (Error ''Unexpected error'')), fs @ [(filePath, mode)])
     else (CallsBack 0 (Some (Error ''Permission denied'')), fs @ [(filePath, mode)]))"

text \<open>A primitive that does \<^verbatim>\<open>throw null\<close> for scripts and succeeds for the rest.\<close>

definition chmod_throws_null :: "(string \<times> jsval) list chmod_fn" where
  "chmod_throws_null fs filePath mode =
    (if suffix ''.js'' filePath then (Throws ThrownNull, fs @ [(filePath, mode)])
     else (CallsBack 0 None, fs @ [(filePath, mode)]))"

text \<open>A primitive that never invokes its callback for style sheets.\<close>

definition chmod_hangs_css :: "(string \<times> jsval) list chmod_fn" where
  "chmod_hangs_css fs filePath mode =
    (if suffix ''.css'' filePath then (NeverCallsBack, fs @ [(filePath, mode)])
     else (CallsBack 0 None, fs @ [(filePath, mode)]))"

text \<open>One rule with the pattern \<^verbatim>\<open>/\.js$/g\<close>.\<close>

definition global_rules :: "rule list" where
  "global_rules = [\<lparr> permissions = JNum 493, patterns = [Some (JRegExp 2)] \<rparr>]"

section \<open>Concrete configurations\<close>

text \<open>
  The configuration of the scenario above, once with a single regular expression and once
  with an array, and configurations that break the validation at the second rule.
\<close>

definition rule_js :: jsval where
  "rule_js = JObject [(''permissions'', JNum 493), (''patterns'', JRegExp 0)]"

definition rule_css :: jsval where
  "rule_css = JObject [(''permissions'', JNum 420), (''patterns'', JArray [Some (JRegExp 1)])]"

definition scenario_options :: jsval where
  "scenario_options = JObject [(''rules'', JArray [Some rule_js, Some rule_css])]"

definition rule_without_permissions :: jsval where
  "rule_without_permissions = JObject [(''patterns'', JStr ''cli.js'')]"

definition faulty_options :: jsval where
  "faulty_options =
     JObject [(''rules'', JArray [Some rule_js, Some rule_without_permissions, Some JNull])]"

text \<open>The first rule of the scenario with its pattern given as a one-element array.\<close>

definition scenario_options_arrays :: jsval where
  "scenario_options_arrays =
     JObject [(''rules'', JArray [Some (to_array_form rule_js), Some rule_css])]"

text \<open>A rule that sets no permission bits at all, as in the plugin's own tests.\<close>

definition zero_options :: jsval where
  "zero_options =
     JObject [(''rules'', JArray
       [Some (JObject [(''permissions'', JNum 0), (''patterns'', JStr ''script.js'')])])]"

definition zero_rules :: "rule list" where
  "zero_rules = [\<lparr> permissions = JNum 0, patterns = [Some (JStr ''script.js'')] \<rparr>]"

text \<open>Rules whose \<^verbatim>\<open>permissions\<close> are \<^verbatim>\<open>null\<close>, a string and a negative number.\<close>

definition odd_permissions_options :: jsval where
  "odd_permissions_options =
     JObject [(''rules'', JArray
       [Some (JObject [(''permissions'', JNull), (''patterns'', JStr ''a.txt'')]),
        Some (JObject [(''permissions'', JStr ''755''), (''patterns'', JStr ''b.txt'')]),
        Some (JObject [(''permissions'', JNum (- 1)), (''patterns'', JStr ''c.txt'')])])]"

definition odd_permissions_rules :: "rule list" where
  "odd_permissions_rules =
     [\<lparr> permissions = JNull, patterns = [Some (JStr ''a.txt'')] \<rparr>,
      \<lparr> permissions = JStr ''755'', patterns = [Some (JStr ''b.txt'')] \<rparr>,
      \<lparr> permissions = JNum (- 1), patterns = [Some (JStr ''c.txt'')] \<rparr>]"

text \<open>
  A rule whose patterns array holds a number, \<^verbatim>\<open>null\<close>, a hole, an object and one
  string.
\<close>

definition odd_patterns_options :: jsval where
  "odd_patterns_options =
     JObject [(''rules'', JArray
       [Some (JObject [(''permissions'', JNum 493),
          (''patterns'', JArray [Some (JNum 42), Some JNull, None, Some (JObject []),
                                 Some (JStr ''cli.js'')])])])]"

definition odd_patterns_rules :: "rule list" where
  "odd_patterns_rules =
     [\<lparr> permissions = JNum 493,
        patterns = [Some (JNum 42), Some JNull, None, Some (JObject []), Some (JStr ''cli.js'')] \<rparr>]"

definition unusable_rules :: "rule list" where
  "unusable_rules =
     [\<lparr> permissions = JNum 493, patterns = [Some (JNum 42), Some JNull, None, Some (JObject [])] \<rparr>]"

text \<open>
  The configuration \<^verbatim>\<open>{rules: [ , rule]}\<close>, whose rules array has a hole at index 0; and
  the configuration with the pattern \<^verbatim>\<open>/\.js$/g\<close>.
\<close>

definition sparse_options :: jsval where
  "sparse_options = JObject [(''rules'', JArray [None, Some rule_js])]"

definition global_options :: jsval where
  "global_options =
     JObject [(''rules'', JArray
       [Some (JObject [(''permissions'', JNum 493), (''patterns'', JRegExp 2)])])]"


section \<open>Lemmas on the constructor\<close>

text \<open>
  The decimal rendering of an index is injective; the constructor's checks are those of the
  validation sequence; the constructor never fails with a \<^verbatim>\<open>TypeError\<close>, since it reads
  properties of objects only.
\<close>

lemma show_nat_nonempty: "show_nat n \<noteq> []"
  by (subst show_nat.simps) simp

lemma digit_char_inject:
  assumes "a < 10" and "b < 10" and "digit_char a = digit_char b"
  shows "a = b"
proof -
  have a: "a \<in> {0, 1, 2, 3, 4, 5, 6, 7, 8, 9}" using assms(1) by auto
  have b: "b \<in> {0, 1, 2, 3, 4, 5, 6, 7, 8, 9}" using assms(2) by auto
  from a b assms(3) show ?thesis
    by (auto simp: digit_char_def)
qed

lemma show_nat_inject: "show_nat n = show_nat m \<Longrightarrow> n = m"
proof (induction n arbitrary: m rule: show_nat.induct)
  case (1 n)
  show ?case
  proof (cases "n < 10")
    case small_n: True
    show ?thesis
    proof (cases "m < 10")
      case True
      with small_n "1.prems" show ?thesis
        by (simp add: show_nat.simps [of n] show_nat.simps [of m] digit_char_inject)
    next
      case False
      with small_n "1.prems" show_nat_nonempty [of "m div 10"] show ?thesis
        by (simp add: show_nat.simps [of n] show_nat.simps [of m] Cons_eq_append_conv)
    qed
  next
    case big_n: False
    show ?thesis
    proof (cases "m < 10")
      case True
      with big_n "1.prems" show_nat_nonempty [of "n div 10"] show ?thesis
        by (simp add: show_nat.simps [of n] show_nat.simps [of m] append_eq_Cons_conv)
    next
      case False
      with big_n "1.prems" have
        q: "show_nat (n div 10) = show_nat (m div 10)" and
        d: "digit_char (n mod 10) = digit_char (m mod 10)"
        by (simp_all add: show_nat.simps [of n] show_nat.simps [of m])
      from "1.IH" [OF big_n q] have "n div 10 = m div 10" .
      moreover from d have "n mod 10 = m mod 10" by (intro digit_char_inject) simp_all
      ultimately show ?thesis by (metis div_mult_mod_eq)
    qed
  qed
qed

lemma is_object_typeof: "is_object r \<longleftrightarrow> typeof r = ''object'' \<and> r \<noteq> JNull"
  by (cases r) simp_all

lemma is_object_truthy: "is_object r \<Longrightarrow> truthy r"
  by (cases r) simp_all

lemma get_prop_field: "is_object r \<Longrightarrow> get_prop r name = Inr (field r name)"
  by (cases r) (simp_all add: field_def split: option.splits)

lemma undefined_typeof: "typeof v = ''undefined'' \<longleftrightarrow> v = JUndefined"
  by (cases v) simp_all

lemma pattern_shape_typeof:
  "pattern_shape v \<longleftrightarrow> typeof v = ''string'' \<or> instanceof_RegExp v \<or> isArray v"
  by (cases v) simp_all

lemma elements_case: "isArray v \<Longrightarrow> elements v = (case v of JArray xs \<Rightarrow> xs | p \<Rightarrow> [Some p])"
  by (cases v) simp_all

lemma not_array_case: "\<not> isArray v \<Longrightarrow> (case v of JArray xs \<Rightarrow> xs | p \<Rightarrow> [Some p]) = [Some v]"
  by (cases v) simp_all

lemma normalize_rule_spec:
  "normalize_rule r i =
    (case spec_rule_fault r of
       Some k \<Rightarrow> Inl (Error (spec_rule_message k i))
     | None \<Rightarrow> Inr (spec_normal_form r))"
proof (cases "is_object r")
  case False
  then show ?thesis
    by (auto simp: normalize_rule_def spec_rule_fault_def is_object_typeof plugin_name_def)
next
  case True
  then have t: "typeof r = ''object''" "r \<noteq> JNull" by (simp_all add: is_object_typeof)
  show ?thesis
    using True
    by (simp add: normalize_rule_def spec_rule_fault_def t get_prop_field undefined_typeof
          pattern_shape_typeof spec_normal_form_def plugin_name_def elements_case not_array_case)
qed

lemma map_rules_first_fault:
  assumes "i < length rs" and "rs ! i = Some r" and "spec_rule_fault r = Some k"
      and "\<forall>j<i. \<forall>r'. rs ! j = Some r' \<longrightarrow> spec_rule_fault r' = None"
  shows "map_rules n rs = Inl (Error (spec_rule_message k (n + i)))"
  using assms
proof (induction rs arbitrary: n i)
  case Nil
  then show ?case by simp
next
  case (Cons x rs)
  show ?case
  proof (cases i)
    case 0
    with Cons.prems show ?thesis by (simp add: normalize_rule_spec)
  next
    case (Suc i')
    with Cons.prems have head: "\<forall>r'. x = Some r' \<longrightarrow> spec_rule_fault r' = None" by auto
    from Suc Cons.prems have "i' < length rs" "rs ! i' = Some r" "spec_rule_fault r = Some k"
      "\<forall>j<i'. \<forall>r'. rs ! j = Some r' \<longrightarrow> spec_rule_fault r' = None" by auto
    from Cons.IH [OF this, of "Suc n"] head Suc show ?thesis
      by (cases x) (simp_all add: normalize_rule_spec)
  qed
qed

lemma map_rules_no_fault:
  assumes "\<forall>r. Some r \<in> set rs \<longrightarrow> spec_rule_fault r = None"
  shows "map_rules n rs = Inr (map (map_option spec_normal_form) rs)"
  using assms
proof (induction rs arbitrary: n)
  case Nil
  then show ?case by simp
next
  case (Cons x rs)
  from Cons.prems have head: "\<forall>r. x = Some r \<longrightarrow> spec_rule_fault r = None" by auto
  from Cons.prems have "\<forall>r. Some r \<in> set rs \<longrightarrow> spec_rule_fault r = None" by auto
  from Cons.IH [OF this, of "Suc n"] head show ?case
    by (cases x) (simp_all add: normalize_rule_spec)
qed

lemma map_rules_result:
  "map_rules n rs = Inr rules \<Longrightarrow> rules = map (map_option spec_normal_form) rs"
proof (induction rs arbitrary: n rules)
  case Nil
  then show ?case by simp
next
  case (Cons x rs)
  then show ?case
    by (cases x) (auto simp: normalize_rule_spec split: option.splits sum.splits)
qed

lemma constructor_object:
  "is_object options \<Longrightarrow>
   constructor options =
     (if \<not> isArray (field options ''rules'')
      then Inl (Error ''SetFilePermissionsPlugin: The \"rules\" option must be an array.'')
      else map_rules 0 (elements (field options ''rules'')))"
  by (simp add: constructor_def is_object_typeof is_object_truthy get_prop_field plugin_name_def)

lemma constructor_result:
  assumes "constructor options = Inr rules"
  shows "rules = map (map_option spec_normal_form) (elements (field options ''rules''))"
proof -
  have obj: "is_object options"
    using assms by (cases options) (simp_all add: constructor_def)
  with assms show ?thesis
    by (simp add: constructor_object map_rules_result split: if_splits)
qed

lemma constructor_never_TypeError: "constructor options \<noteq> Inl (TypeError m)"
proof (cases "is_object options")
  case False
  then show ?thesis by (cases options) (simp_all add: constructor_def)
next
  case True
  have "map_rules n rs \<noteq> Inl (TypeError m)" for n rs
  proof (induction rs arbitrary: n)
    case Nil
    then show ?case by simp
  next
    case (Cons x rs)
    then show ?case
      by (cases x) (auto simp: normalize_rule_spec split: option.splits sum.splits)
  qed
  with True show ?thesis by (simp add: constructor_object)
qed

lemma spec_rule_message_inject:
  "spec_rule_message k i = spec_rule_message k' i' \<Longrightarrow> k = k' \<and> i = i'"
  by (cases k; cases k') (auto dest: show_nat_inject)

section \<open>Lemmas on single patterns and on patterns without effect\<close>

lemma map_of_to_array_form:
  "map_of (map (\<lambda>(k, v). if k = ''patterns'' \<and> (typeof v = ''string'' \<or> instanceof_RegExp v)
                              then (k, JArray [Some v]) else (k, v)) ps) name
     = map_option (\<lambda>v. if name = ''patterns'' \<and> (typeof v = ''string'' \<or> instanceof_RegExp v)
                         then JArray [Some v] else v) (map_of ps name)"
  by (induction ps) auto

lemma field_JObject:
  "field (JObject ps) name = (case map_of ps name of None \<Rightarrow> JUndefined | Some v \<Rightarrow> v)"
  by (simp add: field_def split: option.splits)

lemma field_to_array_form:
  "field (to_array_form r) name =
     (if name = ''patterns'' \<and> (typeof (field r name) = ''string'' \<or> instanceof_RegExp (field r name))
      then JArray [Some (field r name)] else field r name)"
proof (cases r)
  case (JObject ps)
  show ?thesis
  proof (cases "map_of ps name")
    case None
    then show ?thesis
      unfolding JObject to_array_form.simps field_JObject map_of_to_array_form by simp
  next
    case (Some v)
    then show ?thesis
      unfolding JObject to_array_form.simps field_JObject map_of_to_array_form by auto
  qed
qed (simp_all add: field_def)

lemma is_object_to_array_form: "is_object (to_array_form r) = is_object r"
  by (cases r) simp_all

lemma single_pattern_cases:
  "typeof v = ''string'' \<or> instanceof_RegExp v \<Longrightarrow>
     v \<noteq> JUndefined \<and> pattern_shape v \<and> (case v of JArray xs \<Rightarrow> xs | p \<Rightarrow> [Some p]) = [Some v]"
  by (cases v) simp_all

lemma fault_to_array_form: "spec_rule_fault (to_array_form r) = spec_rule_fault r"
proof (cases "typeof (field r ''patterns'') = ''string'' \<or> instanceof_RegExp (field r ''patterns'')")
  case True
  from single_pattern_cases [OF True] have
    "field r ''patterns'' \<noteq> JUndefined" "pattern_shape (field r ''patterns'')" by simp_all
  with True show ?thesis
    by (simp add: spec_rule_fault_def is_object_to_array_form field_to_array_form)
next
  case False
  then show ?thesis
    by (simp add: spec_rule_fault_def is_object_to_array_form field_to_array_form)
qed

lemma normal_form_to_array_form: "spec_normal_form (to_array_form r) = spec_normal_form r"
proof (cases "typeof (field r ''patterns'') = ''string'' \<or> instanceof_RegExp (field r ''patterns'')")
  case True
  from single_pattern_cases [OF True] have
    "(case field r ''patterns'' of JArray xs \<Rightarrow> xs | p \<Rightarrow> [Some p]) = [Some (field r ''patterns'')]" by simp
  with True show ?thesis
    by (simp add: spec_normal_form_def field_to_array_form)
next
  case False
  then show ?thesis
    by (simp add: spec_normal_form_def field_to_array_form)
qed

lemma normalize_rule_to_array_form: "normalize_rule (to_array_form r) i = normalize_rule r i"
  by (simp add: normalize_rule_spec fault_to_array_form normal_form_to_array_form
           split: option.splits)

lemma map_rules_to_array_form:
  assumes "length rs' = length rs"
      and "\<forall>j<length rs. rs' ! j = rs ! j \<or> rs' ! j = map_option to_array_form (rs ! j)"
  shows "map_rules n rs' = map_rules n rs"
  using assms
proof (induction rs arbitrary: rs' n)
  case Nil
  then show ?case by simp
next
  case (Cons x rs)
  from Cons.prems(1) obtain x' rs'' where rs': "rs' = x' # rs''" and len: "length rs'' = length rs"
    by (cases rs') auto
  from Cons.prems(2) rs' have head: "x' = x \<or> x' = map_option to_array_form x" by auto
  from Cons.prems(2) rs' have
    "\<forall>j<length rs. rs'' ! j = rs ! j \<or> rs'' ! j = map_option to_array_form (rs ! j)"
    by auto
  from Cons.IH [OF len this] have tail: "map_rules (Suc n) rs'' = map_rules (Suc n) rs" .
  show ?case
  proof (cases x)
    case None
    with head tail rs' show ?thesis by auto
  next
    case (Some r)
    with head obtain r' where x': "x' = Some r'" and "r' = r \<or> r' = to_array_form r" by auto
    then have "normalize_rule r' n = normalize_rule r n"
      by (auto simp: normalize_rule_to_array_form)
    with tail rs' Some x' show ?thesis by (simp split: sum.splits)
  qed
qed


section \<open>Lemmas on match resolution\<close>

lemma pattern_matches_other:
  "typeof p \<noteq> ''string'' \<and> \<not> instanceof_RegExp p \<Longrightarrow> pattern_matches rs a p = (False, rs)"
  by (simp add: pattern_matches_def)

lemma patterns_some_unusable:
  "\<forall>p. Some p \<in> set ps \<longrightarrow> typeof p \<noteq> ''string'' \<and> \<not> instanceof_RegExp p \<Longrightarrow>
   patterns_some rs a ps = (False, rs)"
proof (induction ps)
  case Nil
  then show ?case by simp
next
  case (Cons x ps)
  then show ?case by (cases x) (simp_all add: pattern_matches_other)
qed

lemma patterns_some_usable: "patterns_some rs a (filter usable ps) = patterns_some rs a ps"
proof (induction ps arbitrary: rs)
  case Nil
  show ?case by simp
next
  case (Cons x ps)
  show ?case
  proof (cases x)
    case None
    with Cons show ?thesis by simp
  next
    case (Some p)
    show ?thesis
    proof (cases "usable (Some p)")
      case True
      with Some Cons show ?thesis by (simp split: prod.splits bool.splits)
    next
      case False
      then have "pattern_matches rs a p = (False, rs)" by (simp add: pattern_matches_other)
      with False Some Cons show ?thesis by simp
    qed
  qed
qed

lemma matchingRule_without_other:
  "matchingRule rs (map (map_option without_other_patterns) rules) a =
     (map_sum (\<lambda>e. e) (map_option without_other_patterns) (fst (matchingRule rs rules a)),
      snd (matchingRule rs rules a))"
proof (induction rules arbitrary: rs)
  case Nil
  show ?case by simp
next
  case (Cons x rules)
  show ?case
  proof (cases x)
    case None
    then show ?thesis by simp
  next
    case (Some r)
    have p: "patterns (without_other_patterns r) = filter usable (patterns r)"
      by (simp add: without_other_patterns_def)
    show ?thesis
      using Cons
      by (simp add: Some p patterns_some_usable split: prod.splits bool.splits)
  qed
qed

lemma permissions_without_other: "permissions (without_other_patterns r) = permissions r"
  by (simp add: without_other_patterns_def)

lemma RegExp_test_unflagged:
  "\<not> flagged re \<Longrightarrow> RegExp_test re s = (search re 0 s \<noteq> None, re)"
  by (simp add: RegExp_test_def split: option.splits)

lemma pattern_matches_unflagged:
  "unflagged_pattern rs (Some p) \<Longrightarrow>
   pattern_matches rs a p = (spec_pattern_matches rs a (Some p), rs)"
  by (cases p) (auto simp: pattern_matches_def RegExp_test_unflagged)

lemma patterns_some_unflagged:
  "list_all (unflagged_pattern rs) ps \<Longrightarrow>
   patterns_some rs a ps = (list_ex (spec_pattern_matches rs a) ps, rs)"
proof (induction ps)
  case Nil
  show ?case by simp
next
  case (Cons x ps)
  then show ?case by (cases x) (auto simp: pattern_matches_unflagged split: bool.splits)
qed

lemma matchingRule_unflagged:
  "unflagged rs rules \<Longrightarrow>
   matchingRule rs (map Some rules) a = (Inr (spec_match_result rs rules a), rs)"
proof (induction rules)
  case Nil
  show ?case by (simp add: spec_match_result_def)
next
  case (Cons r rules)
  then show ?case
    by (simp add: unflagged_def spec_match_result_def spec_rule_matches_def patterns_some_unflagged)
qed

lemma matchingRule_dense: "\<exists>m. fst (matchingRule rs (map Some rules) a) = Inr m"
  by (induction rules arbitrary: rs) (auto split: prod.splits bool.splits)

lemma resolution_error_dense: "resolution_error rs (map Some rules) names = None"
proof (induction names arbitrary: rs)
  case Nil
  show ?case by simp
next
  case (Cons a names)
  obtain m rs' where "matchingRule rs (map Some rules) a = (Inr m, rs')"
    using matchingRule_dense [of rs rules a] by (cases "matchingRule rs (map Some rules) a") auto
  with Cons show ?case by simp
qed

lemma resolved_unflagged:
  "unflagged rs rules \<Longrightarrow>
   resolved rs (map Some rules) names =
     List.map_filter (\<lambda>a. map_option (Pair a) (spec_match_result rs rules a)) names"
  by (induction names) (simp_all add: matchingRule_unflagged split: option.splits)

lemma operations_unflagged:
  "unflagged rs rules \<Longrightarrow>
   operations join (map Some rules) out rs names =
     List.map_filter (spec_operation join rs rules out) names"
  by (induction names)
     (simp_all add: operations_def matchingRule_unflagged spec_operation_def split: option.splits)

lemma regexps_left_unflagged:
  "unflagged rs rules \<Longrightarrow> regexps_left rs (map Some rules) names = rs"
  by (induction names) (simp_all add: matchingRule_unflagged)

section \<open>Lemmas on the applier\<close>

text \<open>
  The promises, unfolded along the asset names; what \<^verbatim>\<open>map\<close> leaves behind in terms of
  match resolution and of the primitive alone; and the hook in these terms.
\<close>

lemma issued_Nil: "issued join rules out f rs fs [] = []"
  by (simp add: issued_def filter_Boolean_def)

lemma issued_Cons:
  "issued join rules out f rs fs (a # as) =
    (case matchingRule rs rules a of
       (Inl e, rs') \<Rightarrow> []
     | (Inr None, rs') \<Rightarrow> issued join rules out f rs' fs as
     | (Inr (Some r), rs') \<Rightarrow>
         ((join out a, permissions r), fst (f fs (join out a) (permissions r)))
           # issued join rules out f rs' (snd (f fs (join out a) (permissions r))) as)"
  by (simp add: issued_def filter_Boolean_def Let_def case_prod_beta
           split: prod.splits sum.splits option.splits)

lemma issued_calls:
  "map fst (issued join rules out f rs fs as) = operations join rules out rs as"
  by (induction as arbitrary: rs fs)
     (simp_all add: issued_Nil issued_Cons operations_def
               split: prod.splits sum.splits option.splits)

lemma issued_answers:
  "map snd (issued join rules out f rs fs as) = answers f fs (operations join rules out rs as)"
  by (induction as arbitrary: rs fs)
     (simp_all add: issued_Nil issued_Cons operations_def
               split: prod.splits sum.splits option.splits)

lemma issued_zip:
  "issued join rules out f rs fs as =
     zip (operations join rules out rs as) (answers f fs (operations join rules out rs as))"
  by (metis issued_calls issued_answers zip_map_fst_snd)

lemma map_assets_error:
  "fst (map_assets join rules out f rs fs as) = resolution_error rs rules as"
proof (induction as arbitrary: rs fs)
  case Nil
  show ?case by (simp)
next
  case (Cons a as)
  obtain m rs' where m: "matchingRule rs rules a = (m, rs')"
    by (cases "matchingRule rs rules a")
  show ?case
  proof (cases m)
    case (Inl e)
    with m show ?thesis by (simp)
  next
    case (Inr x)
    show ?thesis
    proof (cases x)
      case None
      with m Inr Cons [of rs' fs] show ?thesis by (simp add: case_prod_beta)
    next
      case (Some r)
      with m Inr Cons [of rs' "snd (f fs (join out a) (permissions r))"] show ?thesis
        by (simp add: case_prod_beta Let_def)
    qed
  qed
qed

lemma map_assets_regexps:
  "fst (snd (snd (map_assets join rules out f rs fs as))) = regexps_left rs rules as"
proof (induction as arbitrary: rs fs)
  case Nil
  show ?case by (simp)
next
  case (Cons a as)
  obtain m rs' where m: "matchingRule rs rules a = (m, rs')"
    by (cases "matchingRule rs rules a")
  show ?case
  proof (cases m)
    case (Inl e)
    with m show ?thesis by (simp)
  next
    case (Inr x)
    show ?thesis
    proof (cases x)
      case None
      with m Inr Cons [of rs' fs] show ?thesis by (simp add: case_prod_beta)
    next
      case (Some r)
      with m Inr Cons [of rs' "snd (f fs (join out a) (permissions r))"] show ?thesis
        by (simp add: case_prod_beta Let_def)
    qed
  qed
qed

lemma map_assets_files:
  "snd (snd (snd (map_assets join rules out f rs fs as)))
     = received f fs (operations join rules out rs as)"
proof (induction as arbitrary: rs fs)
  case Nil
  show ?case by (simp add: operations_def)
next
  case (Cons a as)
  obtain m rs' where m: "matchingRule rs rules a = (m, rs')"
    by (cases "matchingRule rs rules a")
  show ?case
  proof (cases m)
    case (Inl e)
    with m show ?thesis by (simp add: operations_def)
  next
    case (Inr x)
    show ?thesis
    proof (cases x)
      case None
      with m Inr Cons [of rs' fs] show ?thesis by (simp add: case_prod_beta operations_def)
    next
      case (Some r)
      with m Inr Cons [of rs' "snd (f fs (join out a) (permissions r))"] show ?thesis
        by (simp add: case_prod_beta Let_def operations_def)
    qed
  qed
qed

lemma afterEmit_supported:
  "chmod ofs = Some f \<Longrightarrow>
   afterEmit join rules out rs (Some ofs) c =
    (let mods = issued join rules out f rs (files ofs) (assets c);
         c' = c\<lparr> warnings := warnings c @ concat (map callback_warning (run_callbacks mods)) \<rparr>;
         rs' = regexps_left rs rules (assets c);
         fs' = received f (files ofs) (operations join rules out rs (assets c))
     in case resolution_error rs rules (assets c) of
          Some e \<Rightarrow>
            \<lparr> compilation_after = c', files_after = Some fs', regexps_after = rs',
              chmod_calls = map fst mods, completion = NotCalled,
              hook_throws = Some e, unhandled_rejection = None \<rparr>
        | None \<Rightarrow> settle c' mods rs' fs')"
  by (simp add: afterEmit_def issued_def Let_def case_prod_beta
        map_assets_error map_assets_regexps map_assets_files split: option.splits)

lemma afterEmit_dense:
  "chmod ofs = Some f \<Longrightarrow>
   afterEmit join (map Some rules) out rs (Some ofs) c =
     settle (c\<lparr> warnings := warnings c @ concat (map callback_warning
                 (run_callbacks (issued join (map Some rules) out f rs (files ofs) (assets c)))) \<rparr>)
       (issued join (map Some rules) out f rs (files ofs) (assets c))
       (regexps_left rs (map Some rules) (assets c))
       (received f (files ofs) (operations join (map Some rules) out rs (assets c)))"
  by (simp add: afterEmit_supported Let_def resolution_error_dense)

lemma chmod_calls_settle: "chmod_calls (settle c' mods rs fs) = map fst mods"
  by (simp add: settle_def split: promise_state.splits sum.splits)

lemma files_after_settle: "files_after (settle c' mods rs fs) = Some fs"
  by (simp add: settle_def split: promise_state.splits sum.splits)

lemma warnings_settle: "warnings (compilation_after (settle c' mods rs fs)) = warnings c'"
  by (simp add: settle_def split: promise_state.splits sum.splits)

lemma chmod_calls_supported:
  "chmod ofs = Some f \<Longrightarrow>
   chmod_calls (afterEmit join rules out rs (Some ofs) c) = operations join rules out rs (assets c)"
  by (simp add: afterEmit_supported Let_def issued_calls chmod_calls_settle split: option.splits)

lemma files_after_supported:
  "chmod ofs = Some f \<Longrightarrow>
   files_after (afterEmit join rules out rs (Some ofs) c)
     = Some (received f (files ofs) (operations join rules out rs (assets c)))"
  by (simp add: afterEmit_supported Let_def files_after_settle split: option.splits)

lemma warnings_supported:
  "chmod ofs = Some f \<Longrightarrow>
   warnings (compilation_after (afterEmit join rules out rs (Some ofs) c)) =
     warnings c @ concat (map callback_warning
                      (run_callbacks (issued join rules out f rs (files ofs) (assets c))))"
  by (simp add: afterEmit_supported Let_def warnings_settle split: option.splits)

lemma issued_all:
  assumes "\<And>fs filePath mode. P ((filePath, mode), fst (f fs filePath mode))"
  shows "list_all P (issued join rules out f rs fs as)"
  by (induction as arbitrary: rs fs)
     (simp_all add: issued_Nil issued_Cons assms split: prod.splits sum.splits option.splits)

lemma always_succeeding_primitive:
  assumes "\<And>fs filePath mode. \<exists>t. fst (f fs filePath mode) = CallsBack t None"
  shows "list_all succeeds (issued join rules out f rs fs as)"
proof (rule issued_all)
  fix fs filePath mode
  from assms [of fs filePath mode] obtain t where "fst (f fs filePath mode) = CallsBack t None" ..
  then show "succeeds ((filePath, mode), fst (f fs filePath mode))" by simp
qed

lemma always_answering_primitive:
  assumes "\<And>fs filePath mode. \<exists>t err. fst (f fs filePath mode) = CallsBack t err"
  shows "list_all calls_back (issued join rules out f rs fs as)"
proof (rule issued_all)
  fix fs filePath mode
  from assms [of fs filePath mode] obtain t err where "fst (f fs filePath mode) = CallsBack t err"
    by blast
  then show "calls_back ((filePath, mode), fst (f fs filePath mode))" by simp
qed

lemma find_Some_set: "find P xs = Some x \<Longrightarrow> x \<in> set xs \<and> P x"
  by (induction xs) (auto split: if_splits)

lemma spec_operations_length:
  "length (List.map_filter (spec_operation join rs rules out) as)
     = length (filter (\<lambda>a. \<exists>r\<in>set rules. spec_rule_matches rs a r) as)"
  by (induction as)
     (auto simp: spec_operation_def spec_match_result_def find_None_iff split: option.splits
           dest: find_Some_set)

lemma resolved_without_other:
  "resolved rs (map (map_option without_other_patterns) rules) as
     = map (\<lambda>(a, r). (a, without_other_patterns r)) (resolved rs rules as)"
proof (induction as arbitrary: rs)
  case Nil
  show ?case by simp
next
  case (Cons a as)
  obtain m rs' where m: "matchingRule rs rules a = (m, rs')"
    by (cases "matchingRule rs rules a")
  then have w: "matchingRule rs (map (map_option without_other_patterns) rules) a
                  = (map_sum (\<lambda>e. e) (map_option without_other_patterns) m, rs')"
    by (simp add: matchingRule_without_other)
  show ?case
  proof (cases m)
    case (Inl e)
    with m w show ?thesis by simp
  next
    case (Inr x)
    with m w Cons [of rs'] show ?thesis by (cases x) simp_all
  qed
qed

lemma map_assets_without_other:
  "map_assets join (map (map_option without_other_patterns) rules) out f rs fs as
     = map_assets join rules out f rs fs as"
proof (induction as arbitrary: rs fs)
  case Nil
  show ?case by simp
next
  case (Cons a as)
  obtain m rs' where m: "matchingRule rs rules a = (m, rs')"
    by (cases "matchingRule rs rules a")
  then have w: "matchingRule rs (map (map_option without_other_patterns) rules) a
                  = (map_sum (\<lambda>e. e) (map_option without_other_patterns) m, rs')"
    by (simp add: matchingRule_without_other)
  show ?case
  proof (cases m)
    case (Inl e)
    with m w show ?thesis by simp
  next
    case (Inr x)
    show ?thesis
    proof (cases x)
      case None
      with m w Inr Cons [of rs' fs] show ?thesis by simp
    next
      case (Some r)
      with m w Inr Cons [of rs' "snd (f fs (join out a) (permissions r))"] show ?thesis
        by (simp add: permissions_without_other Let_def case_prod_beta)
    qed
  qed
qed

lemma afterEmit_without_other:
  "afterEmit join (map (map_option without_other_patterns) rules) out rs outputFileSystem c
     = afterEmit join rules out rs outputFileSystem c"
  unfolding afterEmit_def map_assets_without_other by (rule refl)

lemma matchingRule_unusable:
  assumes "\<forall>r. Some r \<in> set rules \<longrightarrow>
             (\<forall>p. Some p \<in> set (patterns r) \<longrightarrow> typeof p \<noteq> ''string'' \<and> \<not> instanceof_RegExp p)"
  shows "\<exists>m. matchingRule rs rules a = (m, rs) \<and> m \<noteq> Inr (Some r')"
  using assms
proof (induction rules)
  case Nil
  show ?case by simp
next
  case (Cons x rules)
  show ?case
  proof (cases x)
    case None
    then show ?thesis by simp
  next
    case (Some r)
    with Cons.prems have "patterns_some rs a (patterns r) = (False, rs)"
      by (intro patterns_some_unusable) auto
    moreover from Cons have "\<exists>m. matchingRule rs rules a = (m, rs) \<and> m \<noteq> Inr (Some r')" by auto
    ultimately show ?thesis using Some by simp
  qed
qed

lemma resolved_unusable:
  assumes "\<forall>r. Some r \<in> set rules \<longrightarrow>
             (\<forall>p. Some p \<in> set (patterns r) \<longrightarrow> typeof p \<noteq> ''string'' \<and> \<not> instanceof_RegExp p)"
  shows "resolved rs rules as = []"
proof (induction as)
  case Nil
  show ?case by simp
next
  case (Cons a as)
  from matchingRule_unusable [OF assms] have
    "\<And>r'. \<exists>m. matchingRule rs rules a = (m, rs) \<and> m \<noteq> Inr (Some r')" by blast
  then obtain m where m: "matchingRule rs rules a = (m, rs)" "\<And>r'. m \<noteq> Inr (Some r')"
    by (metis prod.inject)
  with Cons show ?case by (cases m) (auto split: option.splits)
qed

section \<open>Lemmas on the promises\<close>

text \<open>
  How \<^verbatim>\<open>Promise.all\<close> settles, and which warnings the callbacks push, whatever the order
  in which they run.
\<close>

lemma succeeds_calls_back: "succeeds m \<Longrightarrow> calls_back m"
  by (auto elim: succeeds.elims)

lemma Promise_all_calls_back: "list_all calls_back mods \<Longrightarrow> Promise_all mods = Fulfilled"
proof -
  assume a: "list_all calls_back mods"
  have r: "List.map_filter rejection mods = []"
    using a by (induction mods) (auto elim: calls_back.elims)
  have n: "\<not> list_ex never_settles mods"
    using a by (induction mods) (auto elim: calls_back.elims)
  show ?thesis by (simp add: Promise_all_def r n)
qed

lemma rejection_None: "\<not> throws m \<Longrightarrow> rejection m = None"
  by (cases m rule: throws.cases) simp_all

lemma Promise_all_Rejected_iff:
  "Promise_all mods = Rejected e \<longleftrightarrow> (\<exists>es. List.map_filter rejection mods = e # es)"
  by (auto simp: Promise_all_def split: list.splits)

lemma Promise_all_throws:
  "list_ex throws mods \<Longrightarrow>
   \<exists>pre c e post. mods = pre @ (c, Throws e) # post \<and> \<not> list_ex throws pre \<and> Promise_all mods = Rejected e"
proof (induction mods)
  case Nil
  then show ?case by simp
next
  case (Cons m mods)
  show ?case
  proof (cases "throws m")
    case True
    then obtain c e where "m = (c, Throws e)" by (auto elim: throws.elims)
    then have "m # mods = [] @ (c, Throws e) # mods \<and> \<not> list_ex throws [] \<and> Promise_all (m # mods) = Rejected e"
      by (simp add: Promise_all_def)
    then show ?thesis by blast
  next
    case False
    with Cons obtain pre c e post where
      p: "mods = pre @ (c, Throws e) # post" "\<not> list_ex throws pre" "Promise_all mods = Rejected e"
      by auto
    from False have r: "rejection m = None" by (cases m rule: throws.cases) simp_all
    have "m # mods = (m # pre) @ (c, Throws e) # post \<and> \<not> list_ex throws (m # pre) \<and> Promise_all (m # mods) = Rejected e"
      using p False r by (simp add: Promise_all_Rejected_iff)
    then show ?thesis by blast
  qed
qed

lemma Promise_all_pending:
  "\<not> list_ex throws mods \<Longrightarrow> list_ex never_settles mods \<Longrightarrow> Promise_all mods = Pending"
proof -
  assume a: "\<not> list_ex throws mods" and b: "list_ex never_settles mods"
  have "List.map_filter rejection mods = []"
    using a by (induction mods) (simp_all add: rejection_None)
  with b show ?thesis by (simp add: Promise_all_def)
qed

lemma callback_warnings_failures:
  "concat (map callback_warning (List.map_filter callback_of mods)) =
     map (\<lambda>(filePath, err). Error (plugin_name @ '': Could not set permissions for '' @ filePath
             @ ''. Error: '' @ message err)) (List.map_filter failure_of mods)"
proof (induction mods)
  case Nil
  show ?case by simp
next
  case (Cons m mods)
  obtain filePath mode b where m: "m = ((filePath, mode), b)" by (metis surj_pair)
  show ?case
  proof (cases b)
    case (CallsBack t err)
    with m Cons show ?thesis by (cases err) simp_all
  qed (use m Cons in simp_all)
qed

lemma mset_concat_map:
  "mset (concat (map g ys)) = (\<Sum>y\<in>#mset ys. mset (g y))"
  by (induction ys) simp_all

lemma mset_concat_map_sort:
  "mset (concat (map g (sort_key k xs))) = mset (concat (map g xs))"
  by (simp add: mset_concat_map)

lemma mset_new_warnings:
  "mset (concat (map callback_warning (run_callbacks mods))) =
     mset (map (\<lambda>(filePath, err). Error (plugin_name @ '': Could not set permissions for '' @ filePath
             @ ''. Error: '' @ message err)) (List.map_filter failure_of mods))"
  unfolding run_callbacks_def mset_concat_map_sort callback_warnings_failures ..

lemma no_warning_when_all_succeed:
  "list_all succeeds mods \<Longrightarrow> List.map_filter failure_of mods = []"
  by (induction mods) (auto elim: succeeds.elims)

section \<open>The concrete build and the concrete configurations, evaluated\<close>

lemma ends_with_simps:
  "ends_with ''.js'' 0 ''script.js'' = Some 9" "ends_with ''.js'' 0 ''style.css'' = None"
  "ends_with ''.js'' 0 ''readme.txt'' = None" "ends_with ''.css'' 0 ''style.css'' = Some 9"
  "ends_with ''.css'' 0 ''readme.txt'' = None"
  "ends_with ''.js'' 0 ''a.js'' = Some 4" "ends_with ''.js'' 0 ''b.js'' = Some 4"
  "ends_with ''.js'' 0 ''c.js'' = Some 4" "ends_with ''.js'' 4 ''b.js'' = None"
  by (simp_all add: ends_with_def suffix_to_prefix)

lemma scenario_regexps_simps:
  "scenario_regexps 0 = \<lparr> search = ends_with ''.js'', flagged = False, lastIndex = 0 \<rparr>"
  "scenario_regexps (Suc 0) = \<lparr> search = ends_with ''.css'', flagged = False, lastIndex = 0 \<rparr>"
  "scenario_regexps 2 = \<lparr> search = ends_with ''.js'', flagged = True, lastIndex = 0 \<rparr>"
  "scenario_regexps 3 = \<lparr> search = anywhere, flagged = False, lastIndex = 0 \<rparr>"
  by (simp_all add: scenario_regexps_def)

lemma scenario_unflagged: "unflagged scenario_regexps scenario_rules"
  by (simp add: unflagged_def scenario_rules_def scenario_regexps_simps)

lemma scenario_match_results:
  "spec_match_result scenario_regexps scenario_rules ''script.js''
     = Some \<lparr> permissions = JNum 493, patterns = [Some (JRegExp 0)] \<rparr>"
  "spec_match_result scenario_regexps scenario_rules ''style.css''
     = Some \<lparr> permissions = JNum 420, patterns = [Some (JRegExp 1)] \<rparr>"
  "spec_match_result scenario_regexps scenario_rules ''readme.txt'' = None"
  by (simp_all add: spec_match_result_def spec_rule_matches_def scenario_rules_def
        scenario_regexps_simps ends_with_simps)

lemma scenario_operations:
  "operations slash_join (map Some scenario_rules) ''/out'' scenario_regexps
      [''script.js'', ''style.css'', ''readme.txt'']
     = [(''/out/script.js'', JNum 493), (''/out/style.css'', JNum 420)]"
  by (simp add: operations_unflagged [OF scenario_unflagged] spec_operation_def
        scenario_match_results slash_join_def)

lemma scenario_issued_ok:
  "issued slash_join (map Some scenario_rules) ''/out'' chmod_ok scenario_regexps []
      [''script.js'', ''style.css'', ''readme.txt''] =
     [((''/out/script.js'', JNum 493), CallsBack 0 None),
      ((''/out/style.css'', JNum 420), CallsBack 0 None)]"
  by (simp add: issued_zip scenario_operations chmod_ok_def)

lemma scenario_issued_denied:
  "issued slash_join (map Some scenario_rules) ''/out'' chmod_denied_css scenario_regexps []
      [''script.js'', ''style.css'', ''readme.txt''] =
     [((''/out/script.js'', JNum 493), CallsBack 1 None),
      ((''/out/style.css'', JNum 420), CallsBack 2 (Some (Error ''Permission denied'')))]"
  by (simp add: issued_zip scenario_operations chmod_denied_css_def suffix_to_prefix)

lemma scenario_issued_hangs:
  "issued slash_join (map Some scenario_rules) ''/out'' chmod_hangs_css scenario_regexps []
      [''script.js'', ''style.css'', ''readme.txt''] =
     [((''/out/script.js'', JNum 493), CallsBack 0 None),
      ((''/out/style.css'', JNum 420), NeverCallsBack)]"
  by (simp add: issued_zip scenario_operations chmod_hangs_css_def suffix_to_prefix)

lemma scenario_issued_throws:
  "issued slash_join (map Some scenario_rules) ''/out'' chmod_throws_js scenario_regexps []
      [''script.js'', ''style.css'', ''readme.txt''] =
     [((''/out/script.js'', JNum 493), Throws (ThrownError (Error ''Unexpected error''))),
      ((''/out/style.css'', JNum 420), CallsBack 0 (Some (Error ''Permission denied'')))]"
  by (simp add: issued_zip scenario_operations chmod_throws_js_def suffix_to_prefix)

lemma scenario_issued_throws_null:
  "issued slash_join (map Some scenario_rules) ''/out'' chmod_throws_null scenario_regexps []
      [''script.js'', ''style.css'', ''readme.txt''] =
     [((''/out/script.js'', JNum 493), Throws ThrownNull),
      ((''/out/style.css'', JNum 420), CallsBack 0 None)]"
  by (simp add: issued_zip scenario_operations chmod_throws_null_def suffix_to_prefix)

lemma received_recording:
  assumes "\<And>fs filePath mode. snd (f fs filePath mode) = fs @ [(filePath, mode)]"
  shows "received f fs calls = fs @ calls"
  by (induction calls arbitrary: fs) (auto simp: assms)

lemma received_chmod_ok: "received chmod_ok fs calls = fs @ calls"
  by (rule received_recording) (simp add: chmod_ok_def)

lemma received_chmod_denied_css: "received chmod_denied_css fs calls = fs @ calls"
  by (rule received_recording) (simp add: chmod_denied_css_def)

lemma received_chmod_throws_js: "received chmod_throws_js fs calls = fs @ calls"
  by (rule received_recording) (simp add: chmod_throws_js_def)

lemma received_chmod_throws_null: "received chmod_throws_null fs calls = fs @ calls"
  by (rule received_recording) (simp add: chmod_throws_null_def)

lemma received_chmod_hangs_css: "received chmod_hangs_css fs calls = fs @ calls"
  by (rule received_recording) (simp add: chmod_hangs_css_def)

lemma scenario_constructor: "constructor scenario_options = Inr (map Some scenario_rules)"
  by (simp add: constructor_def scenario_options_def normalize_rule_def rule_js_def rule_css_def
        scenario_rules_def)

lemma rule_js_fault: "spec_rule_fault rule_js = None"
  by (simp add: spec_rule_fault_def rule_js_def field_def)

lemma rule_css_fault: "spec_rule_fault rule_css = None"
  by (simp add: spec_rule_fault_def rule_css_def field_def)

lemma rule_js_normal_form:
  "spec_normal_form rule_js = \<lparr> permissions = JNum 493, patterns = [Some (JRegExp 0)] \<rparr>"
  by (simp add: spec_normal_form_def rule_js_def field_def)

lemma rule_css_normal_form:
  "spec_normal_form rule_css = \<lparr> permissions = JNum 420, patterns = [Some (JRegExp 1)] \<rparr>"
  by (simp add: spec_normal_form_def rule_css_def field_def)

lemma zero_constructor: "constructor zero_options = Inr (map Some zero_rules)"
  by (simp add: constructor_def zero_options_def normalize_rule_def zero_rules_def)

lemma odd_permissions_constructor:
  "constructor odd_permissions_options = Inr (map Some odd_permissions_rules)"
  by (simp add: constructor_def odd_permissions_options_def normalize_rule_def
        odd_permissions_rules_def)

lemma odd_patterns_constructor:
  "constructor odd_patterns_options = Inr (map Some odd_patterns_rules)"
  by (simp add: constructor_def odd_patterns_options_def normalize_rule_def odd_patterns_rules_def)

lemma global_constructor: "constructor global_options = Inr (map Some global_rules)"
  by (simp add: constructor_def global_options_def normalize_rule_def global_rules_def)

lemma settle_Fulfilled:
  "Promise_all mods = Fulfilled \<Longrightarrow>
   settle c' mods rs fs =
     \<lparr> compilation_after = c', files_after = Some fs, regexps_after = rs,
       chmod_calls = map fst mods, completion = Called None,
       hook_throws = None, unhandled_rejection = None \<rparr>"
  by (simp add: settle_def)

lemma settle_Pending:
  "Promise_all mods = Pending \<Longrightarrow>
   settle c' mods rs fs =
     \<lparr> compilation_after = c', files_after = Some fs, regexps_after = rs,
       chmod_calls = map fst mods, completion = NotCalled,
       hook_throws = None, unhandled_rejection = None \<rparr>"
  by (simp add: settle_def)

lemma settle_Rejected_error:
  "Promise_all mods = Rejected (ThrownError e) \<Longrightarrow>
   settle c' mods rs fs =
     \<lparr> compilation_after = c'\<lparr> errors := errors c' @
          [Error (plugin_name @ '': An unexpected error occurred. '' @ message e)] \<rparr>,
       files_after = Some fs, regexps_after = rs,
       chmod_calls = map fst mods, completion = Called (Some (ThrownError e)),
       hook_throws = None, unhandled_rejection = None \<rparr>"
  by (simp add: settle_def)

lemma settle_Rejected_null:
  "Promise_all mods = Rejected ThrownNull \<Longrightarrow>
   settle c' mods rs fs =
     \<lparr> compilation_after = c', files_after = Some fs, regexps_after = rs,
       chmod_calls = map fst mods, completion = NotCalled,
       hook_throws = None,
       unhandled_rejection = Some (TypeError ''Cannot read properties of null (reading 'message')'') \<rparr>"
  by (simp add: settle_def)

lemma settle_Rejected_undefined:
  "Promise_all mods = Rejected ThrownUndefined \<Longrightarrow>
   settle c' mods rs fs =
     \<lparr> compilation_after = c', files_after = Some fs, regexps_after = rs,
       chmod_calls = map fst mods, completion = NotCalled,
       hook_throws = None,
       unhandled_rejection = Some (TypeError ''Cannot read properties of undefined (reading 'message')'') \<rparr>"
  by (simp add: settle_def)


lemma resolved_operation:
  "(a, r0) \<in> set (resolved rs rules names) \<Longrightarrow>
   (join out a, permissions r0) \<in> set (operations join rules out rs names)"
  by (force simp: operations_def)

lemma operations_nth:
  "k < length (resolved rs rules names) \<Longrightarrow>
   operations join rules out rs names ! k
     = (join out (fst (resolved rs rules names ! k)), permissions (snd (resolved rs rules names ! k)))"
  by (simp add: operations_def case_prod_beta)

lemma in_set_map_filter: "y \<in> set (List.map_filter g xs) \<longleftrightarrow> (\<exists>x\<in>set xs. g x = Some y)"
  by (induction xs) (auto simp: List.map_filter_simps split: option.splits)

lemma resolved_unflagged_member:
  assumes "unflagged rs rules" and "a \<in> set names"
      and "matchingRule rs (map Some rules) a = (Inr (Some r0), rs')"
  shows "(a, r0) \<in> set (resolved rs (map Some rules) names)"
proof -
  from matchingRule_unflagged [OF assms(1), of a] assms(3)
  have "spec_match_result rs rules a = Some r0" by simp
  with assms(2) show ?thesis
    by (auto simp: resolved_unflagged [OF assms(1)] in_set_map_filter)
qed

lemma files_after_recording:
  assumes "chmod ofs = Some g" and "\<And>fs p m. snd (g fs p m) = fs @ [(p, m)]"
  shows "files_after (afterEmit join rules out rs (Some ofs) c)
           = Some (files ofs @ operations join rules out rs (assets c))"
  using assms by (simp add: files_after_supported received_recording)

lemma zero_unflagged: "unflagged scenario_regexps zero_rules"
  by (simp add: unflagged_def zero_rules_def)

lemma zero_match_result:
  "spec_match_result scenario_regexps zero_rules ''script.js''
     = Some \<lparr> permissions = JNum 0, patterns = [Some (JStr ''script.js'')] \<rparr>"
  by (simp add: spec_match_result_def spec_rule_matches_def zero_rules_def)

lemma zero_operations:
  "operations slash_join (map Some zero_rules) ''/out'' scenario_regexps [''script.js'']
     = [(''/out/script.js'', JNum 0)]"
  by (simp add: operations_unflagged [OF zero_unflagged] spec_operation_def zero_match_result
        slash_join_def List.map_filter_simps)

lemma zero_resolved:
  "resolved scenario_regexps (map Some zero_rules) [''script.js'']
     = [(''script.js'', \<lparr> permissions = JNum 0, patterns = [Some (JStr ''script.js'')] \<rparr>)]"
  unfolding resolved_unflagged [OF zero_unflagged]
  by (simp add: zero_match_result List.map_filter_simps)

lemma odd_permissions_unflagged: "unflagged scenario_regexps odd_permissions_rules"
  by (simp add: unflagged_def odd_permissions_rules_def)

lemma odd_permissions_match_results:
  "spec_match_result scenario_regexps odd_permissions_rules ''a.txt''
     = Some \<lparr> permissions = JNull, patterns = [Some (JStr ''a.txt'')] \<rparr>"
  "spec_match_result scenario_regexps odd_permissions_rules ''b.txt''
     = Some \<lparr> permissions = JStr ''755'', patterns = [Some (JStr ''b.txt'')] \<rparr>"
  "spec_match_result scenario_regexps odd_permissions_rules ''c.txt''
     = Some \<lparr> permissions = JNum (- 1), patterns = [Some (JStr ''c.txt'')] \<rparr>"
  by (simp_all add: spec_match_result_def spec_rule_matches_def odd_permissions_rules_def)

lemma odd_permissions_operations:
  "operations slash_join (map Some odd_permissions_rules) ''/out'' scenario_regexps
      [''a.txt'', ''b.txt'', ''c.txt'']
     = [(''/out/a.txt'', JNull), (''/out/b.txt'', JStr ''755''), (''/out/c.txt'', JNum (- 1))]"
  by (simp add: operations_unflagged [OF odd_permissions_unflagged] spec_operation_def
        odd_permissions_match_results slash_join_def List.map_filter_simps)

lemma odd_permissions_resolved:
  "resolved scenario_regexps (map Some odd_permissions_rules) [''a.txt'', ''b.txt'', ''c.txt'']
     = [(''a.txt'', \<lparr> permissions = JNull, patterns = [Some (JStr ''a.txt'')] \<rparr>),
        (''b.txt'', \<lparr> permissions = JStr ''755'', patterns = [Some (JStr ''b.txt'')] \<rparr>),
        (''c.txt'', \<lparr> permissions = JNum (- 1), patterns = [Some (JStr ''c.txt'')] \<rparr>)]"
  unfolding resolved_unflagged [OF odd_permissions_unflagged]
  by (simp add: odd_permissions_match_results List.map_filter_simps)


lemma flagged_test_twice:
  assumes "flagged (rs k)" and "lastIndex (rs k) = 0"
      and "search (rs k) 0 a = Some e" and "search (rs k) e b = None"
  shows "regexp_test rs (JRegExp k) a = (True, rs(k := (rs k)\<lparr> lastIndex := e \<rparr>))"
    and "regexp_test (rs(k := (rs k)\<lparr> lastIndex := e \<rparr>)) (JRegExp k) b
           = (False, rs(k := (rs k)\<lparr> lastIndex := 0 \<rparr>))"
  using assms by (simp_all add: RegExp_test_def)

lemma flagged_resolved_one:
  assumes "flagged (rs k)" and "lastIndex (rs k) = 0"
      and "search (rs k) 0 a = Some e" and "search (rs k) e b = None"
  shows "resolved rs [Some \<lparr> permissions = m, patterns = [Some (JRegExp k)] \<rparr>] [a, b]
           = [(a, \<lparr> permissions = m, patterns = [Some (JRegExp k)] \<rparr>)]"
  using flagged_test_twice [of rs k a e b] assms by (simp add: pattern_matches_def)

lemma flagged_resolved_two:
  assumes "flagged (rs k)" and "lastIndex (rs k) = 0"
      and "search (rs k) 0 a = Some e" and "search (rs k) e b = None"
  shows "resolved rs [Some \<lparr> permissions = m1, patterns = [Some (JRegExp k)] \<rparr>,
                      Some \<lparr> permissions = m2, patterns = [Some (JStr b)] \<rparr>] [a, b]
           = [(a, \<lparr> permissions = m1, patterns = [Some (JRegExp k)] \<rparr>),
              (b, \<lparr> permissions = m2, patterns = [Some (JStr b)] \<rparr>)]"
  using flagged_test_twice [of rs k a e b] assms by (simp add: pattern_matches_def)

lemma fresh_matchingRule:
  assumes "lastIndex (rs k) = 0" and "search (rs k) 0 b = Some e'"
  shows "fst (matchingRule rs (Some \<lparr> permissions = m, patterns = [Some (JRegExp k)] \<rparr> # rules) b)
           = Inr (Some \<lparr> permissions = m, patterns = [Some (JRegExp k)] \<rparr>)"
  using assms by (simp add: pattern_matches_def RegExp_test_def)

lemma Promise_all_first_throw:
  assumes "mods = pre @ (call, Throws e) # post" and "\<not> list_ex throws pre"
  shows "Promise_all mods = Rejected e"
proof -
  from assms(2) have "List.map_filter rejection pre = []"
    by (induction pre) (auto simp: List.map_filter_simps rejection_None)
  then have "List.map_filter rejection mods = e # List.map_filter rejection post"
    unfolding assms(1) by (simp add: List.map_filter_def)
  then show ?thesis by (simp add: Promise_all_def)
qed

lemma one_operation_per_resolved_asset:
  assumes "chmod ofs = Some f"
      and "list_all succeeds (issued join (map Some rules) out f rs (files ofs) (assets c))"
  shows "chmod_calls (afterEmit join (map Some rules) out rs (Some ofs) c)
           = operations join (map Some rules) out rs (assets c)
       \<and> files_after (afterEmit join (map Some rules) out rs (Some ofs) c)
           = Some (received f (files ofs) (operations join (map Some rules) out rs (assets c)))
       \<and> compilation_after (afterEmit join (map Some rules) out rs (Some ofs) c) = c
       \<and> completion (afterEmit join (map Some rules) out rs (Some ofs) c) = Called None
       \<and> (unflagged rs rules \<longrightarrow>
            chmod_calls (afterEmit join (map Some rules) out rs (Some ofs) c)
              = List.map_filter (spec_operation join rs rules out) (assets c)
          \<and> length (chmod_calls (afterEmit join (map Some rules) out rs (Some ofs) c))
              = length (filter (\<lambda>a. \<exists>r\<in>set rules. spec_rule_matches rs a r) (assets c)))"
proof -
  let ?mods = "issued join (map Some rules) out f rs (files ofs) (assets c)"
  let ?res = "afterEmit join (map Some rules) out rs (Some ofs) c"
  have calls: "chmod_calls ?res = operations join (map Some rules) out rs (assets c)"
    using assms(1) by (rule chmod_calls_supported)
  have fa: "files_after ?res
      = Some (received f (files ofs) (operations join (map Some rules) out rs (assets c)))"
    using assms(1) by (rule files_after_supported)
  have "list_all calls_back ?mods"
    using assms(2) by (induction ?mods) (auto simp: list_all_iff succeeds_calls_back)
  then have all: "Promise_all ?mods = Fulfilled" by (rule Promise_all_calls_back)
  have "concat (map callback_warning (run_callbacks ?mods)) = []"
    using mset_new_warnings [of ?mods] no_warning_when_all_succeed [OF assms(2)]
    by (simp del: concat_eq_Nil_conv)
  then have comp: "compilation_after ?res = c"
    using all by (simp add: afterEmit_dense [OF assms(1)] settle_Fulfilled)
  have fin: "completion ?res = Called None"
    using all by (simp add: afterEmit_dense [OF assms(1)] settle_Fulfilled)
  have u: "unflagged rs rules \<longrightarrow>
            chmod_calls ?res = List.map_filter (spec_operation join rs rules out) (assets c)
          \<and> length (chmod_calls ?res)
              = length (filter (\<lambda>a. \<exists>r\<in>set rules. spec_rule_matches rs a r) (assets c))"
    using calls by (simp add: operations_unflagged spec_operations_length)
  show ?thesis using calls fa comp fin u by blast
qed


lemma thrown_error_object_is_fatal:
  assumes "chmod ofs = Some f"
      and "issued join (map Some rules) out f rs (files ofs) (assets c)
             = pre @ (call, Throws (ThrownError err)) # post"
      and "\<not> list_ex throws pre"
  shows "errors (compilation_after (afterEmit join (map Some rules) out rs (Some ofs) c)) =
             errors c @ [Error (''SetFilePermissionsPlugin: An unexpected error occurred. '' @ message err)]
       \<and> completion (afterEmit join (map Some rules) out rs (Some ofs) c)
             = Called (Some (ThrownError err))
       \<and> unhandled_rejection (afterEmit join (map Some rules) out rs (Some ofs) c) = None
       \<and> (\<exists>new. warnings (compilation_after (afterEmit join (map Some rules) out rs (Some ofs) c))
                    = warnings c @ new
            \<and> mset new = mset (map (\<lambda>(filePath, err). Error (''SetFilePermissionsPlugin: Could not set permissions for ''
                                      @ filePath @ ''. Error: '' @ message err))
                               (List.map_filter failure_of
                                  (issued join (map Some rules) out f rs (files ofs) (assets c)))))"
proof -
  let ?mods = "issued join (map Some rules) out f rs (files ofs) (assets c)"
  let ?res = "afterEmit join (map Some rules) out rs (Some ofs) c"
  have rej: "Promise_all ?mods = Rejected (ThrownError err)"
    using assms(2,3) by (rule Promise_all_first_throw)
  have errs: "errors (compilation_after ?res) =
             errors c @ [Error (''SetFilePermissionsPlugin: An unexpected error occurred. '' @ message err)]"
    using rej by (simp add: afterEmit_dense [OF assms(1)] settle_Rejected_error plugin_name_def)
  have compl: "completion ?res = Called (Some (ThrownError err))"
    using rej by (simp add: afterEmit_dense [OF assms(1)] settle_Rejected_error)
  have unh: "unhandled_rejection ?res = None"
    using rej by (simp add: afterEmit_dense [OF assms(1)] settle_Rejected_error)
  have w: "warnings (compilation_after ?res) = warnings c @ concat (map callback_warning (run_callbacks ?mods))"
    using assms(1) by (rule warnings_supported)
  have m: "mset (concat (map callback_warning (run_callbacks ?mods))) =
       mset (map (\<lambda>(filePath, err). Error (''SetFilePermissionsPlugin: Could not set permissions for ''
                                      @ filePath @ ''. Error: '' @ message err))
                 (List.map_filter failure_of ?mods))"
    using mset_new_warnings [of ?mods] by (simp add: plugin_name_def)
  show ?thesis using errs compl unh w m by blast
qed

lemma thrown_value_without_message_is_fatal:
  assumes "chmod ofs = Some f"
      and "issued join (map Some rules) out f rs (files ofs) (assets c)
             = pre @ (call, Throws ThrownOther) # post"
      and "\<not> list_ex throws pre"
  shows "errors (compilation_after (afterEmit join (map Some rules) out rs (Some ofs) c)) =
             errors c @ [Error ''SetFilePermissionsPlugin: An unexpected error occurred. undefined'']
       \<and> completion (afterEmit join (map Some rules) out rs (Some ofs) c)
             = Called (Some ThrownOther)
       \<and> unhandled_rejection (afterEmit join (map Some rules) out rs (Some ofs) c) = None"
proof -
  have "Promise_all (issued join (map Some rules) out f rs (files ofs) (assets c))
          = Rejected ThrownOther"
    using assms(2,3) by (rule Promise_all_first_throw)
  then show ?thesis
    by (simp add: afterEmit_dense [OF assms(1)] settle_def plugin_name_def)
qed

lemma constructor_validation:
  "(\<not> is_object options \<longrightarrow>
      constructor options = Inl (Error ''SetFilePermissionsPlugin: Options object is required.''))
 \<and> (is_object options \<and> \<not> isArray (field options ''rules'') \<longrightarrow>
      constructor options = Inl (Error ''SetFilePermissionsPlugin: The \"rules\" option must be an array.''))
 \<and> (is_object options \<and> field options ''rules'' = JArray rs \<and> i < length rs
      \<and> rs ! i = Some r \<and> spec_rule_fault r = Some k
      \<and> (\<forall>j<i. \<forall>r'. rs ! j = Some r' \<longrightarrow> spec_rule_fault r' = None) \<longrightarrow>
      constructor options = Inl (Error (spec_rule_message k i)))
 \<and> (is_object options \<and> field options ''rules'' = JArray rs
      \<and> (\<forall>r. Some r \<in> set rs \<longrightarrow> spec_rule_fault r = None) \<longrightarrow>
      constructor options = Inr (map (map_option spec_normal_form) rs))
 \<and> (spec_rule_message k i = spec_rule_message k' i' \<longrightarrow> k = k' \<and> i = i')"
proof (intro conjI impI)
  assume "\<not> is_object options"
  then show "constructor options = Inl (Error ''SetFilePermissionsPlugin: Options object is required.'')"
    by (cases options) (simp_all add: constructor_def plugin_name_def)
next
  assume "is_object options \<and> \<not> isArray (field options ''rules'')"
  then show "constructor options = Inl (Error ''SetFilePermissionsPlugin: The \"rules\" option must be an array.'')"
    by (simp add: constructor_object)
next
  assume "is_object options \<and> field options ''rules'' = JArray rs \<and> i < length rs
      \<and> rs ! i = Some r \<and> spec_rule_fault r = Some k
      \<and> (\<forall>j<i. \<forall>r'. rs ! j = Some r' \<longrightarrow> spec_rule_fault r' = None)"
  then show "constructor options = Inl (Error (spec_rule_message k i))"
    using map_rules_first_fault [of i rs r k 0] by (simp add: constructor_object)
next
  assume "is_object options \<and> field options ''rules'' = JArray rs
      \<and> (\<forall>r. Some r \<in> set rs \<longrightarrow> spec_rule_fault r = None)"
  then show "constructor options = Inr (map (map_option spec_normal_form) rs)"
    using map_rules_no_fault [of rs 0] by (simp add: constructor_object)
next
  assume "spec_rule_message k i = spec_rule_message k' i'"
  then show "k = k'" "i = i'" by (simp_all add: spec_rule_message_inject)
qed

lemma resolution_stops_at_hole:
  "resolution_error rs (None # rules) (a # as)
     = Some (TypeError ''Cannot read properties of undefined (reading 'patterns')'')"
  "resolved rs (None # rules) names = []"
  "regexps_left rs (None # rules) names = rs"
  by (cases names; simp)+


lemma faulty_constructor:
  "constructor faulty_options
     = Inl (Error ''SetFilePermissionsPlugin: \"permissions\" option is required for rule at index 1.'')"
  by (simp add: constructor_def faulty_options_def normalize_rule_def rule_js_def
        rule_without_permissions_def plugin_name_def show_nat.simps digit_char_def)

section \<open>The claims\<close>

text \<open>
  Claim C1. Match resolution asks a regular expression with \<^verbatim>\<open>test\<close>, which for an
  expression with the \<^verbatim>\<open>g\<close> or the \<^verbatim>\<open>y\<close> flag starts where the last match ended. So
  when such an expression has matched the asset \<open>a\<close> up to index \<open>e\<close> and is not found in
  the next asset \<open>b\<close> from \<open>e\<close> on, although \<open>b\<close> satisfies it: the first rule is the match
  result of both assets, and the rule the code finds for \<open>b\<close> when asked at once, but
  along the assets \<open>a\<close>, \<open>b\<close> the code consults the later rule for \<open>b\<close> and the primitive
  receives \<open>b\<close> with the later rule's permissions.
\<close>

theorem global_flag_hands_asset_to_later_rule:
  "flagged (rs k) \<and> lastIndex (rs k) = 0 \<and> search (rs k) 0 a = Some e
     \<and> search (rs k) e b = None \<and> search (rs k) 0 b = Some e' \<longrightarrow>
     spec_match_result rs [\<lparr> permissions = m1, patterns = [Some (JRegExp k)] \<rparr>,
                           \<lparr> permissions = m2, patterns = [Some (JStr b)] \<rparr>] a
       = Some \<lparr> permissions = m1, patterns = [Some (JRegExp k)] \<rparr>
   \<and> spec_match_result rs [\<lparr> permissions = m1, patterns = [Some (JRegExp k)] \<rparr>,
                           \<lparr> permissions = m2, patterns = [Some (JStr b)] \<rparr>] b
       = Some \<lparr> permissions = m1, patterns = [Some (JRegExp k)] \<rparr>
   \<and> fst (matchingRule rs [Some \<lparr> permissions = m1, patterns = [Some (JRegExp k)] \<rparr>,
                            Some \<lparr> permissions = m2, patterns = [Some (JStr b)] \<rparr>] b)
       = Inr (Some \<lparr> permissions = m1, patterns = [Some (JRegExp k)] \<rparr>)
   \<and> resolved rs [Some \<lparr> permissions = m1, patterns = [Some (JRegExp k)] \<rparr>,
                   Some \<lparr> permissions = m2, patterns = [Some (JStr b)] \<rparr>] [a, b]
       = [(a, \<lparr> permissions = m1, patterns = [Some (JRegExp k)] \<rparr>),
          (b, \<lparr> permissions = m2, patterns = [Some (JStr b)] \<rparr>)]
   \<and> (chmod ofs = Some f \<longrightarrow>
        chmod_calls (afterEmit join [Some \<lparr> permissions = m1, patterns = [Some (JRegExp k)] \<rparr>,
                                     Some \<lparr> permissions = m2, patterns = [Some (JStr b)] \<rparr>]
                        out rs (Some ofs) (c\<lparr> assets := [a, b] \<rparr>))
          = [(join out a, m1), (join out b, m2)]
      \<and> files_after (afterEmit join [Some \<lparr> permissions = m1, patterns = [Some (JRegExp k)] \<rparr>,
                                     Some \<lparr> permissions = m2, patterns = [Some (JStr b)] \<rparr>]
                        out rs (Some ofs) (c\<lparr> assets := [a, b] \<rparr>))
          = Some (received f (files ofs) [(join out a, m1), (join out b, m2)]))"
proof (intro impI conjI)
  let ?R1 = "\<lparr> permissions = m1, patterns = [Some (JRegExp k)] \<rparr>"
  let ?R2 = "\<lparr> permissions = m2, patterns = [Some (JStr b)] \<rparr>"
  assume h: "flagged (rs k) \<and> lastIndex (rs k) = 0 \<and> search (rs k) 0 a = Some e
     \<and> search (rs k) e b = None \<and> search (rs k) 0 b = Some e'"
  then show "spec_match_result rs [?R1, ?R2] a = Some ?R1"
    by (simp add: spec_match_result_def spec_rule_matches_def)
  from h show "spec_match_result rs [?R1, ?R2] b = Some ?R1"
    by (simp add: spec_match_result_def spec_rule_matches_def)
  from h show "fst (matchingRule rs [Some ?R1, Some ?R2] b) = Inr (Some ?R1)"
    using fresh_matchingRule [of rs k b e' m1 "[Some ?R2]"] by simp
  from h show r: "resolved rs [Some ?R1, Some ?R2] [a, b] = [(a, ?R1), (b, ?R2)]"
    using flagged_resolved_two [of rs k a e b m1 m2] by simp
  then have ops: "operations join [Some ?R1, Some ?R2] out rs (assets (c\<lparr> assets := [a, b] \<rparr>))
                    = [(join out a, m1), (join out b, m2)]"
    by (simp add: operations_def del: resolved.simps)
  assume f: "chmod ofs = Some f"
  show "chmod_calls (afterEmit join [Some ?R1, Some ?R2] out rs (Some ofs) (c\<lparr> assets := [a, b] \<rparr>))
          = [(join out a, m1), (join out b, m2)]"
    by (simp only: chmod_calls_supported [OF f] ops)
  show "files_after (afterEmit join [Some ?R1, Some ?R2] out rs (Some ofs) (c\<lparr> assets := [a, b] \<rparr>))
          = Some (received f (files ofs) [(join out a, m1), (join out b, m2)])"
    by (simp only: files_after_supported [OF f] ops)
qed

text \<open>
  The rules \<^verbatim>\<open>[{permissions: 0o755, patterns: /\.js$/g}, {permissions: 0o644, patterns: 'b.js'}]\<close>
  and the assets \<^verbatim>\<open>a.js\<close>, \<^verbatim>\<open>b.js\<close>.
\<close>

theorem global_flag_hands_asset_to_later_rule_witness:
  "spec_match_result scenario_regexps
       [\<lparr> permissions = JNum 493, patterns = [Some (JRegExp 2)] \<rparr>,
        \<lparr> permissions = JNum 420, patterns = [Some (JStr ''b.js'')] \<rparr>] ''b.js''
     = Some \<lparr> permissions = JNum 493, patterns = [Some (JRegExp 2)] \<rparr>
 \<and> resolved scenario_regexps
       [Some \<lparr> permissions = JNum 493, patterns = [Some (JRegExp 2)] \<rparr>,
        Some \<lparr> permissions = JNum 420, patterns = [Some (JStr ''b.js'')] \<rparr>] [''a.js'', ''b.js'']
     = [(''a.js'', \<lparr> permissions = JNum 493, patterns = [Some (JRegExp 2)] \<rparr>),
        (''b.js'', \<lparr> permissions = JNum 420, patterns = [Some (JStr ''b.js'')] \<rparr>)]
 \<and> files_after (afterEmit slash_join
       [Some \<lparr> permissions = JNum 493, patterns = [Some (JRegExp 2)] \<rparr>,
        Some \<lparr> permissions = JNum 420, patterns = [Some (JStr ''b.js'')] \<rparr>]
       ''/out'' scenario_regexps (Some \<lparr> chmod = Some chmod_ok, files = [] \<rparr>)
       \<lparr> assets = [''a.js'', ''b.js''], warnings = [], errors = [] \<rparr>)
     = Some [(''/out/a.js'', JNum 493), (''/out/b.js'', JNum 420)]"
proof -
  let ?ofs = "\<lparr> chmod = Some chmod_ok, files = [] :: (string \<times> jsval) list \<rparr>"
  let ?c = "\<lparr> assets = [], warnings = [], errors = [] \<rparr>"
  note t = global_flag_hands_asset_to_later_rule
     [where rs = scenario_regexps and k = 2 and a = "''a.js''" and b = "''b.js''" and e = 4
        and e' = 4 and ?m1.0 = "JNum 493" and ?m2.0 = "JNum 420" and ofs = ?ofs and f = chmod_ok
        and join = slash_join and out = "''/out''" and c = ?c]
  have h: "flagged (scenario_regexps 2) \<and> lastIndex (scenario_regexps 2) = 0
     \<and> search (scenario_regexps 2) 0 ''a.js'' = Some 4
     \<and> search (scenario_regexps 2) 4 ''b.js'' = None
     \<and> search (scenario_regexps 2) 0 ''b.js'' = Some 4"
    by (simp add: scenario_regexps_simps ends_with_simps)
  have f: "chmod ?ofs = Some chmod_ok" by simp
  from t h f show ?thesis
    by (simp add: received_chmod_ok slash_join_def del: received.simps resolved.simps)
qed


text \<open>
  Claim C2. When every issued operation invokes its callback, some of them with an error:
  the warnings appended are, up to the order in which the callbacks run, exactly one for
  each operation that reported an error, made of that operation's resolved path and the
  error's message; the operation of every asset that match resolution resolves is issued,
  and the primitive is left in the state in which exactly these calls, in this order, put
  it; the promises carry the primitive's own answers to these calls; no error is recorded
  and the completion callback is invoked without an error. The operations are awaited: as
  long as one of them has not called back (and none has thrown) the completion callback is
  not invoked. For rules without \<^verbatim>\<open>g\<close> or \<^verbatim>\<open>y\<close> flags the operations are those of the
  specification's match results.
\<close>

theorem callback_errors_become_warnings:
  "(chmod ofs = Some f
      \<and> list_all calls_back (issued join (map Some rules) out f rs (files ofs) (assets c)) \<longrightarrow>
      (\<exists>new. warnings (compilation_after (afterEmit join (map Some rules) out rs (Some ofs) c))
                = warnings c @ new
          \<and> mset new = mset (map (\<lambda>(filePath, err). Error (''SetFilePermissionsPlugin: Could not set permissions for ''
                                      @ filePath @ ''. Error: '' @ message err))
                               (List.map_filter failure_of
                                  (issued join (map Some rules) out f rs (files ofs) (assets c)))))
      \<and> chmod_calls (afterEmit join (map Some rules) out rs (Some ofs) c)
           = operations join (map Some rules) out rs (assets c)
      \<and> files_after (afterEmit join (map Some rules) out rs (Some ofs) c)
           = Some (received f (files ofs) (operations join (map Some rules) out rs (assets c)))
      \<and> issued join (map Some rules) out f rs (files ofs) (assets c)
           = zip (operations join (map Some rules) out rs (assets c))
                 (answers f (files ofs) (operations join (map Some rules) out rs (assets c)))
      \<and> (unflagged rs rules \<longrightarrow>
            chmod_calls (afterEmit join (map Some rules) out rs (Some ofs) c)
              = List.map_filter (spec_operation join rs rules out) (assets c))
      \<and> errors (compilation_after (afterEmit join (map Some rules) out rs (Some ofs) c)) = errors c
      \<and> completion (afterEmit join (map Some rules) out rs (Some ofs) c) = Called None)
   \<and> (chmod ofs = Some f
        \<and> list_ex never_settles (issued join (map Some rules) out f rs (files ofs) (assets c))
        \<and> \<not> list_ex throws (issued join (map Some rules) out f rs (files ofs) (assets c)) \<longrightarrow>
      completion (afterEmit join (map Some rules) out rs (Some ofs) c) = NotCalled)"
proof (intro conjI impI)
  let ?mods = "issued join (map Some rules) out f rs (files ofs) (assets c)"
  let ?res = "afterEmit join (map Some rules) out rs (Some ofs) c"
  let ?ops = "operations join (map Some rules) out rs (assets c)"
  {
    assume a: "chmod ofs = Some f \<and> list_all calls_back ?mods"
    then have f: "chmod ofs = Some f" and cb: "list_all calls_back ?mods" by simp_all
    have all: "Promise_all ?mods = Fulfilled" using cb by (rule Promise_all_calls_back)
    have "warnings (compilation_after ?res) = warnings c @ concat (map callback_warning (run_callbacks ?mods))"
      using f by (rule warnings_supported)
    moreover have "mset (concat (map callback_warning (run_callbacks ?mods))) =
       mset (map (\<lambda>(filePath, err). Error (''SetFilePermissionsPlugin: Could not set permissions for ''
                                      @ filePath @ ''. Error: '' @ message err))
                 (List.map_filter failure_of ?mods))"
      using mset_new_warnings [of ?mods] by (simp add: plugin_name_def)
    ultimately show "\<exists>new. warnings (compilation_after ?res) = warnings c @ new
          \<and> mset new = mset (map (\<lambda>(filePath, err). Error (''SetFilePermissionsPlugin: Could not set permissions for ''
                                      @ filePath @ ''. Error: '' @ message err))
                               (List.map_filter failure_of ?mods))"
      by blast
    show calls: "chmod_calls ?res = ?ops"
      using f by (rule chmod_calls_supported)
    show "files_after ?res = Some (received f (files ofs) ?ops)"
      using f by (rule files_after_supported)
    show "?mods = zip ?ops (answers f (files ofs) ?ops)"
      by (rule issued_zip)
    show "errors (compilation_after ?res) = errors c"
      using all by (simp add: afterEmit_dense [OF f] settle_Fulfilled)
    show "completion ?res = Called None"
      using all by (simp add: afterEmit_dense [OF f] settle_Fulfilled)
    assume "unflagged rs rules"
    then show "chmod_calls ?res = List.map_filter (spec_operation join rs rules out) (assets c)"
      using calls by (simp add: operations_unflagged)
  }
  {
    assume a: "chmod ofs = Some f \<and> list_ex never_settles ?mods \<and> \<not> list_ex throws ?mods"
    then have f: "chmod ofs = Some f" by simp
    from a have "Promise_all ?mods = Pending" by (simp add: Promise_all_pending)
    then show "completion ?res = NotCalled"
      by (simp add: afterEmit_dense [OF f] settle_Pending)
  }
qed

text \<open>
  The scenario with a primitive that fails for the style sheet, and with one that never
  answers for it.
\<close>

theorem callback_errors_become_warnings_witness:
  "warnings (compilation_after (afterEmit slash_join (map Some scenario_rules) ''/out'' scenario_regexps
       (Some \<lparr> chmod = Some chmod_denied_css, files = [] \<rparr>) scenario_compilation))
     = [Error ''SetFilePermissionsPlugin: Could not set permissions for /out/style.css. Error: Permission denied'']
   \<and> chmod_calls (afterEmit slash_join (map Some scenario_rules) ''/out'' scenario_regexps
       (Some \<lparr> chmod = Some chmod_denied_css, files = [] \<rparr>) scenario_compilation)
     = [(''/out/script.js'', JNum 493), (''/out/style.css'', JNum 420)]
   \<and> files_after (afterEmit slash_join (map Some scenario_rules) ''/out'' scenario_regexps
       (Some \<lparr> chmod = Some chmod_denied_css, files = [] \<rparr>) scenario_compilation)
     = Some [(''/out/script.js'', JNum 493), (''/out/style.css'', JNum 420)]
   \<and> errors (compilation_after (afterEmit slash_join (map Some scenario_rules) ''/out'' scenario_regexps
       (Some \<lparr> chmod = Some chmod_denied_css, files = [] \<rparr>) scenario_compilation)) = []
   \<and> completion (afterEmit slash_join (map Some scenario_rules) ''/out'' scenario_regexps
       (Some \<lparr> chmod = Some chmod_denied_css, files = [] \<rparr>) scenario_compilation) = Called None
   \<and> completion (afterEmit slash_join (map Some scenario_rules) ''/out'' scenario_regexps
       (Some \<lparr> chmod = Some chmod_hangs_css, files = [] \<rparr>) scenario_compilation) = NotCalled"
proof -
  let ?denied = "\<lparr> chmod = Some chmod_denied_css, files = [] :: (string \<times> jsval) list \<rparr>"
  let ?hangs = "\<lparr> chmod = Some chmod_hangs_css, files = [] :: (string \<times> jsval) list \<rparr>"
  let ?rd = "afterEmit slash_join (map Some scenario_rules) ''/out'' scenario_regexps
                 (Some ?denied) scenario_compilation"
  let ?rh = "afterEmit slash_join (map Some scenario_rules) ''/out'' scenario_regexps
                 (Some ?hangs) scenario_compilation"
  let ?ops = "operations slash_join (map Some scenario_rules) ''/out'' scenario_regexps
                 (assets scenario_compilation)"
  have h1: "chmod ?denied = Some chmod_denied_css
     \<and> list_all calls_back (issued slash_join (map Some scenario_rules) ''/out'' chmod_denied_css
          scenario_regexps (files ?denied) (assets scenario_compilation))"
    by (simp add: scenario_compilation_def scenario_issued_denied)
  have h2: "chmod ?hangs = Some chmod_hangs_css
     \<and> list_ex never_settles (issued slash_join (map Some scenario_rules) ''/out'' chmod_hangs_css
          scenario_regexps (files ?hangs) (assets scenario_compilation))
     \<and> \<not> list_ex throws (issued slash_join (map Some scenario_rules) ''/out'' chmod_hangs_css
          scenario_regexps (files ?hangs) (assets scenario_compilation))"
    by (simp add: scenario_compilation_def scenario_issued_hangs)
  from callback_errors_become_warnings
         [of ?denied chmod_denied_css slash_join scenario_rules "''/out''" scenario_regexps
             scenario_compilation]
       h1
  have r1: "(\<exists>new. warnings (compilation_after ?rd) = warnings scenario_compilation @ new
          \<and> mset new = mset (map (\<lambda>(filePath, err). Error (''SetFilePermissionsPlugin: Could not set permissions for ''
                                      @ filePath @ ''. Error: '' @ message err))
                               (List.map_filter failure_of (issued slash_join (map Some scenario_rules) ''/out''
                                   chmod_denied_css scenario_regexps (files ?denied) (assets scenario_compilation)))))"
    and r1b: "chmod_calls ?rd = ?ops"
    and r1c: "files_after ?rd = Some (received chmod_denied_css (files ?denied) ?ops)"
    and r1d: "errors (compilation_after ?rd) = errors scenario_compilation"
    and r1e: "completion ?rd = Called None"
    and r1f: "unflagged scenario_regexps scenario_rules \<longrightarrow>
               chmod_calls ?rd = List.map_filter
                 (spec_operation slash_join scenario_regexps scenario_rules ''/out'')
                 (assets scenario_compilation)"
    by blast+
  from callback_errors_become_warnings
         [of ?hangs chmod_hangs_css slash_join scenario_rules "''/out''" scenario_regexps
             scenario_compilation]
       h2
  have r2: "completion ?rh = NotCalled"
    by blast
  have ops: "?ops = [(''/out/script.js'', JNum 493), (''/out/style.css'', JNum 420)]"
    by (simp only: scenario_compilation_def compilation.simps scenario_operations)
  from r1 have w: "warnings (compilation_after ?rd)
     = [Error ''SetFilePermissionsPlugin: Could not set permissions for /out/style.css. Error: Permission denied'']"
    by (auto simp: scenario_issued_denied scenario_compilation_def List.map_filter_simps)
  from r1f scenario_unflagged
  have calls: "chmod_calls ?rd = [(''/out/script.js'', JNum 493), (''/out/style.css'', JNum 420)]"
    by (simp add: scenario_compilation_def spec_operation_def scenario_match_results slash_join_def
          List.map_filter_simps)
  from r1c ops have fa: "files_after ?rd = Some [(''/out/script.js'', JNum 493), (''/out/style.css'', JNum 420)]"
    by (simp add: received_chmod_denied_css del: received.simps)
  from r1d have errs: "errors (compilation_after ?rd) = []"
    by (simp only: scenario_compilation_def compilation.simps)
  from w calls fa errs r1e r2 show ?thesis by blast
qed

text \<open>
  Claim C3. The first call of the primitive that throws decides the outcome. When it
  throws \<^verbatim>\<open>null\<close> or \<^verbatim>\<open>undefined\<close>, the handler of the rejection fails itself, reading
  \<^verbatim>\<open>message\<close> from what was thrown: no entry is appended to the errors and the completion
  callback is not invoked, neither with nor without an error; what is left is a rejection
  that nobody handles.
\<close>

theorem thrown_null_is_not_reported:
  "chmod ofs = Some f
     \<and> issued join (map Some rules) out f rs (files ofs) (assets c) = pre @ (call, Throws e) # post
     \<and> \<not> list_ex throws pre \<and> (e = ThrownNull \<or> e = ThrownUndefined) \<longrightarrow>
     errors (compilation_after (afterEmit join (map Some rules) out rs (Some ofs) c)) = errors c
   \<and> completion (afterEmit join (map Some rules) out rs (Some ofs) c) = NotCalled
   \<and> hook_throws (afterEmit join (map Some rules) out rs (Some ofs) c) = None
   \<and> unhandled_rejection (afterEmit join (map Some rules) out rs (Some ofs) c)
       = Some (TypeError (''Cannot read properties of ''
                 @ (if e = ThrownNull then ''null'' else ''undefined'') @ '' (reading 'message')''))"
proof (intro impI)
  let ?mods = "issued join (map Some rules) out f rs (files ofs) (assets c)"
  let ?res = "afterEmit join (map Some rules) out rs (Some ofs) c"
  assume h: "chmod ofs = Some f \<and> ?mods = pre @ (call, Throws e) # post
     \<and> \<not> list_ex throws pre \<and> (e = ThrownNull \<or> e = ThrownUndefined)"
  then have f: "chmod ofs = Some f" by simp
  from h have rej: "Promise_all ?mods = Rejected e"
    using Promise_all_first_throw [of ?mods pre call e post] by simp
  from h have "e = ThrownNull \<or> e = ThrownUndefined" by simp
  then show "errors (compilation_after ?res) = errors c
   \<and> completion ?res = NotCalled
   \<and> hook_throws ?res = None
   \<and> unhandled_rejection ?res
       = Some (TypeError (''Cannot read properties of ''
                 @ (if e = ThrownNull then ''null'' else ''undefined'') @ '' (reading 'message')''))"
  proof
    assume e: "e = ThrownNull"
    with rej show ?thesis
      by (simp add: afterEmit_dense [OF f] settle_Rejected_null)
  next
    assume e: "e = ThrownUndefined"
    with rej show ?thesis
      by (simp add: afterEmit_dense [OF f] settle_Rejected_undefined)
  qed
qed

text \<open>The scenario with a primitive that does \<^verbatim>\<open>throw null\<close> for the script.\<close>

theorem thrown_null_is_not_reported_witness:
  "issued slash_join (map Some scenario_rules) ''/out'' chmod_throws_null scenario_regexps []
       (assets scenario_compilation)
     = [((''/out/script.js'', JNum 493), Throws ThrownNull),
        ((''/out/style.css'', JNum 420), CallsBack 0 None)]
 \<and> errors (compilation_after (afterEmit slash_join (map Some scenario_rules) ''/out'' scenario_regexps
       (Some \<lparr> chmod = Some chmod_throws_null, files = [] \<rparr>) scenario_compilation)) = []
 \<and> completion (afterEmit slash_join (map Some scenario_rules) ''/out'' scenario_regexps
       (Some \<lparr> chmod = Some chmod_throws_null, files = [] \<rparr>) scenario_compilation) = NotCalled
 \<and> unhandled_rejection (afterEmit slash_join (map Some scenario_rules) ''/out'' scenario_regexps
       (Some \<lparr> chmod = Some chmod_throws_null, files = [] \<rparr>) scenario_compilation)
     = Some (TypeError ''Cannot read properties of null (reading 'message')'')"
proof -
  let ?ofs = "\<lparr> chmod = Some chmod_throws_null, files = [] :: (string \<times> jsval) list \<rparr>"
  let ?call = "(''/out/script.js'', JNum 493)"
  let ?post = "[((''/out/style.css'', JNum 420), CallsBack 0 None)]"
  note t = thrown_null_is_not_reported
     [where ofs = ?ofs and f = chmod_throws_null and join = slash_join and rules = scenario_rules
        and out = "''/out''" and rs = scenario_regexps and c = scenario_compilation
        and pre = "[]" and call = ?call and e = ThrownNull and post = ?post]
  have i: "issued slash_join (map Some scenario_rules) ''/out'' chmod_throws_null scenario_regexps []
       (assets scenario_compilation) = [(?call, Throws ThrownNull)] @ ?post"
    by (simp add: scenario_compilation_def scenario_issued_throws_null)
  then have h: "chmod ?ofs = Some chmod_throws_null
     \<and> issued slash_join (map Some scenario_rules) ''/out'' chmod_throws_null scenario_regexps
         (files ?ofs) (assets scenario_compilation) = [] @ (?call, Throws ThrownNull) # ?post
     \<and> \<not> list_ex throws [] \<and> (ThrownNull = ThrownNull \<or> ThrownNull = ThrownUndefined)"
    by simp
  have e: "errors scenario_compilation = []" by (simp add: scenario_compilation_def)
  from t h have "errors (compilation_after (afterEmit slash_join (map Some scenario_rules) ''/out''
         scenario_regexps (Some ?ofs) scenario_compilation)) = errors scenario_compilation"
    and "completion (afterEmit slash_join (map Some scenario_rules) ''/out''
         scenario_regexps (Some ?ofs) scenario_compilation) = NotCalled"
    and "unhandled_rejection (afterEmit slash_join (map Some scenario_rules) ''/out''
         scenario_regexps (Some ?ofs) scenario_compilation)
       = Some (TypeError (''Cannot read properties of ''
                 @ (if ThrownNull = ThrownNull then ''null'' else ''undefined'') @ '' (reading 'message')''))"
    by blast+
  with i e show ?thesis by simp
qed


text \<open>
  Claim C4. When the output file system is \<^verbatim>\<open>null\<close>, or its member \<^verbatim>\<open>chmod\<close> is not a
  function, the hook issues no permission change, appends exactly one warning with the
  fixed message, leaves the errors, the file system and the regular expressions as they
  were, raises no exception, and invokes the completion callback without an error.
\<close>

theorem missing_chmod_skips:
  assumes "outputFileSystem = None \<or> (\<exists>ofs. outputFileSystem = Some ofs \<and> chmod ofs = None)"
  shows "chmod_calls (afterEmit join rules out rs outputFileSystem c) = []
       \<and> warnings (compilation_after (afterEmit join rules out rs outputFileSystem c)) =
           warnings c @ [Error ''SetFilePermissionsPlugin: The output file system does not support 'chmod'. Skipping permission changes.'']
       \<and> errors (compilation_after (afterEmit join rules out rs outputFileSystem c)) = errors c
       \<and> assets (compilation_after (afterEmit join rules out rs outputFileSystem c)) = assets c
       \<and> files_after (afterEmit join rules out rs outputFileSystem c) = map_option files outputFileSystem
       \<and> regexps_after (afterEmit join rules out rs outputFileSystem c) = rs
       \<and> hook_throws (afterEmit join rules out rs outputFileSystem c) = None
       \<and> unhandled_rejection (afterEmit join rules out rs outputFileSystem c) = None
       \<and> completion (afterEmit join rules out rs outputFileSystem c) = Called None"
  using assms by (auto simp: afterEmit_def unsupported_def plugin_name_def)

text \<open>The scenario without an output file system, and with one that has no \<^verbatim>\<open>chmod\<close>.\<close>

theorem missing_chmod_skips_witness:
  "chmod_calls (afterEmit slash_join (map Some scenario_rules) ''/out'' scenario_regexps
       (None :: (string \<times> jsval) list output_file_system option) scenario_compilation) = []
   \<and> warnings (compilation_after (afterEmit slash_join (map Some scenario_rules) ''/out'' scenario_regexps
       (None :: (string \<times> jsval) list output_file_system option) scenario_compilation))
       = [Error ''SetFilePermissionsPlugin: The output file system does not support 'chmod'. Skipping permission changes.'']
   \<and> completion (afterEmit slash_join (map Some scenario_rules) ''/out'' scenario_regexps
       (Some \<lparr> chmod = None, files = [] :: (string \<times> jsval) list \<rparr>) scenario_compilation) = Called None
   \<and> chmod_calls (afterEmit slash_join (map Some scenario_rules) ''/out'' scenario_regexps
       (Some \<lparr> chmod = None, files = [] :: (string \<times> jsval) list \<rparr>) scenario_compilation) = []
   \<and> files_after (afterEmit slash_join (map Some scenario_rules) ''/out'' scenario_regexps
       (Some \<lparr> chmod = None, files = [] :: (string \<times> jsval) list \<rparr>) scenario_compilation) = Some []"
proof -
  let ?none = "None :: (string \<times> jsval) list output_file_system option"
  let ?nochmod = "\<lparr> chmod = None, files = [] :: (string \<times> jsval) list \<rparr>"
  have h1: "?none = None \<or> (\<exists>ofs. ?none = Some ofs \<and> chmod ofs = None)"
    by simp
  have h2: "Some ?nochmod = None \<or> (\<exists>ofs. Some ?nochmod = Some ofs \<and> chmod ofs = None)"
    by simp
  show ?thesis
    using missing_chmod_skips [OF h1, of slash_join "map Some scenario_rules" "''/out''"
              scenario_regexps scenario_compilation]
          missing_chmod_skips [OF h2, of slash_join "map Some scenario_rules" "''/out''"
              scenario_regexps scenario_compilation]
    by (simp add: scenario_compilation_def)
qed

text \<open>
  Claim C5. With a primitive that always succeeds and a rule whose pattern is a regular
  expression with the \<^verbatim>\<open>g\<close> or the \<^verbatim>\<open>y\<close> flag: when the expression has matched the
  asset \<open>a\<close> up to index \<open>e\<close> and is not found in the next asset \<open>b\<close> from \<open>e\<close> on,
  although \<open>b\<close> satisfies it, then both assets are matched and the specification owes each
  of them an operation, but the primitive is called once, for \<open>a\<close> alone; the invocation
  completes without an error and without a warning.
\<close>

theorem global_flag_drops_operation:
  "chmod ofs = Some f \<and> (\<forall>fs p md. \<exists>t. fst (f fs p md) = CallsBack t None)
     \<and> flagged (rs k) \<and> lastIndex (rs k) = 0 \<and> search (rs k) 0 a = Some e
     \<and> search (rs k) e b = None \<and> search (rs k) 0 b = Some e' \<longrightarrow>
     filter (\<lambda>x. spec_match_result rs [\<lparr> permissions = m, patterns = [Some (JRegExp k)] \<rparr>] x \<noteq> None)
        [a, b] = [a, b]
   \<and> List.map_filter (spec_operation join rs [\<lparr> permissions = m, patterns = [Some (JRegExp k)] \<rparr>] out)
        [a, b] = [(join out a, m), (join out b, m)]
   \<and> list_all succeeds (issued join [Some \<lparr> permissions = m, patterns = [Some (JRegExp k)] \<rparr>]
        out f rs (files ofs) [a, b])
   \<and> chmod_calls (afterEmit join [Some \<lparr> permissions = m, patterns = [Some (JRegExp k)] \<rparr>]
        out rs (Some ofs) (c\<lparr> assets := [a, b] \<rparr>)) = [(join out a, m)]
   \<and> files_after (afterEmit join [Some \<lparr> permissions = m, patterns = [Some (JRegExp k)] \<rparr>]
        out rs (Some ofs) (c\<lparr> assets := [a, b] \<rparr>)) = Some (snd (f (files ofs) (join out a) m))
   \<and> compilation_after (afterEmit join [Some \<lparr> permissions = m, patterns = [Some (JRegExp k)] \<rparr>]
        out rs (Some ofs) (c\<lparr> assets := [a, b] \<rparr>)) = c\<lparr> assets := [a, b] \<rparr>
   \<and> completion (afterEmit join [Some \<lparr> permissions = m, patterns = [Some (JRegExp k)] \<rparr>]
        out rs (Some ofs) (c\<lparr> assets := [a, b] \<rparr>)) = Called None"
proof (intro impI)
  let ?R = "\<lparr> permissions = m, patterns = [Some (JRegExp k)] \<rparr>"
  let ?c = "c\<lparr> assets := [a, b] \<rparr>"
  let ?res = "afterEmit join [Some ?R] out rs (Some ofs) ?c"
  assume h: "chmod ofs = Some f \<and> (\<forall>fs p md. \<exists>t. fst (f fs p md) = CallsBack t None)
     \<and> flagged (rs k) \<and> lastIndex (rs k) = 0 \<and> search (rs k) 0 a = Some e
     \<and> search (rs k) e b = None \<and> search (rs k) 0 b = Some e'"
  then have f: "chmod ofs = Some f" by simp
  from h have m: "spec_match_result rs [?R] a = Some ?R" "spec_match_result rs [?R] b = Some ?R"
    by (simp_all add: spec_match_result_def spec_rule_matches_def)
  from m have c1: "filter (\<lambda>x. spec_match_result rs [?R] x \<noteq> None) [a, b] = [a, b]"
    by simp
  from m have c2: "List.map_filter (spec_operation join rs [?R] out) [a, b]
                     = [(join out a, m), (join out b, m)]"
    by (simp add: spec_operation_def List.map_filter_simps)
  from h have c3: "list_all succeeds (issued join [Some ?R] out f rs (files ofs) [a, b])"
    by (simp add: always_succeeding_primitive del: issued_Cons)
  from h have r: "resolved rs [Some ?R] [a, b] = [(a, ?R)]"
    using flagged_resolved_one [of rs k a e b m] by simp
  then have ops: "operations join (map Some [?R]) out rs (assets ?c) = [(join out a, m)]"
    by (simp add: operations_def del: resolved.simps)
  from c3 have s: "list_all succeeds (issued join (map Some [?R]) out f rs (files ofs) (assets ?c))"
    by simp
  from one_operation_per_resolved_asset [OF f s]
  have "chmod_calls (afterEmit join (map Some [?R]) out rs (Some ofs) ?c)
           = operations join (map Some [?R]) out rs (assets ?c)"
    and "files_after (afterEmit join (map Some [?R]) out rs (Some ofs) ?c)
           = Some (received f (files ofs) (operations join (map Some [?R]) out rs (assets ?c)))"
    and "compilation_after (afterEmit join (map Some [?R]) out rs (Some ofs) ?c) = ?c"
    and "completion (afterEmit join (map Some [?R]) out rs (Some ofs) ?c) = Called None"
    by blast+
  then have c4: "chmod_calls ?res = [(join out a, m)]"
    and c5: "files_after ?res = Some (snd (f (files ofs) (join out a) m))"
    and c6: "compilation_after ?res = ?c"
    and c7: "completion ?res = Called None"
    unfolding ops by simp_all
  from c1 c2 c3 c4 c5 c6 c7 show
    "filter (\<lambda>x. spec_match_result rs [?R] x \<noteq> None) [a, b] = [a, b]
   \<and> List.map_filter (spec_operation join rs [?R] out) [a, b] = [(join out a, m), (join out b, m)]
   \<and> list_all succeeds (issued join [Some ?R] out f rs (files ofs) [a, b])
   \<and> chmod_calls ?res = [(join out a, m)]
   \<and> files_after ?res = Some (snd (f (files ofs) (join out a) m))
   \<and> compilation_after ?res = ?c
   \<and> completion ?res = Called None"
    by blast
qed

text \<open>
  The rule \<^verbatim>\<open>{permissions: 0o755, patterns: /\.js$/g}\<close>, the assets \<^verbatim>\<open>a.js\<close> and
  \<^verbatim>\<open>b.js\<close>, and a primitive that records its calls and succeeds.
\<close>

theorem global_flag_drops_operation_witness:
  "constructor global_options = Inr (map Some global_rules)
 \<and> filter (\<lambda>x. spec_match_result scenario_regexps global_rules x \<noteq> None) [''a.js'', ''b.js'']
     = [''a.js'', ''b.js'']
 \<and> chmod_calls (afterEmit slash_join (map Some global_rules) ''/out'' scenario_regexps
       (Some \<lparr> chmod = Some chmod_ok, files = [] \<rparr>)
       \<lparr> assets = [''a.js'', ''b.js''], warnings = [], errors = [] \<rparr>)
     = [(''/out/a.js'', JNum 493)]
 \<and> files_after (afterEmit slash_join (map Some global_rules) ''/out'' scenario_regexps
       (Some \<lparr> chmod = Some chmod_ok, files = [] \<rparr>)
       \<lparr> assets = [''a.js'', ''b.js''], warnings = [], errors = [] \<rparr>)
     = Some [(''/out/a.js'', JNum 493)]
 \<and> compilation_after (afterEmit slash_join (map Some global_rules) ''/out'' scenario_regexps
       (Some \<lparr> chmod = Some chmod_ok, files = [] \<rparr>)
       \<lparr> assets = [''a.js'', ''b.js''], warnings = [], errors = [] \<rparr>)
     = \<lparr> assets = [''a.js'', ''b.js''], warnings = [], errors = [] \<rparr>
 \<and> completion (afterEmit slash_join (map Some global_rules) ''/out'' scenario_regexps
       (Some \<lparr> chmod = Some chmod_ok, files = [] \<rparr>)
       \<lparr> assets = [''a.js'', ''b.js''], warnings = [], errors = [] \<rparr>) = Called None"
proof -
  let ?ofs = "\<lparr> chmod = Some chmod_ok, files = [] :: (string \<times> jsval) list \<rparr>"
  let ?c = "\<lparr> assets = [], warnings = [], errors = [] \<rparr>"
  note t = global_flag_drops_operation
     [where rs = scenario_regexps and k = 2 and a = "''a.js''" and b = "''b.js''" and e = 4
        and e' = 4 and m = "JNum 493" and ofs = ?ofs and f = chmod_ok
        and join = slash_join and out = "''/out''" and c = ?c]
  have h: "chmod ?ofs = Some chmod_ok \<and> (\<forall>fs p md. \<exists>t. fst (chmod_ok fs p md) = CallsBack t None)
     \<and> flagged (scenario_regexps 2) \<and> lastIndex (scenario_regexps 2) = 0
     \<and> search (scenario_regexps 2) 0 ''a.js'' = Some 4
     \<and> search (scenario_regexps 2) 4 ''b.js'' = None
     \<and> search (scenario_regexps 2) 0 ''b.js'' = Some 4"
    by (simp add: scenario_regexps_simps ends_with_simps chmod_ok_def)
  from t h global_constructor show ?thesis
    by (simp add: global_rules_def chmod_ok_def slash_join_def del: issued_Cons)
qed

text \<open>
  Claim C6. The rules array is walked with \<^verbatim>\<open>map\<close>, which passes over the holes of a
  sparse array. A hole reads as \<^verbatim>\<open>undefined\<close>, which is not an object, and in an array
  that holds \<^verbatim>\<open>undefined\<close> itself at index 0 construction fails with the message for
  index 0; but with holes construction succeeds whenever the rules that are present pass
  their checks, also when no rule is present at all, and the holes stay in the rule set.
  The hook then raises a \<^verbatim>\<open>TypeError\<close> at the first asset, before any operation is
  issued, and never invokes the completion callback.
\<close>

theorem holes_in_rules_are_accepted:
  "(is_object options \<and> field options ''rules'' = JArray rs
      \<and> (\<forall>r. Some r \<in> set rs \<longrightarrow> spec_rule_fault r = None) \<longrightarrow>
      constructor options = Inr (map (map_option spec_normal_form) rs))
 \<and> constructor (JObject [(''rules'', JArray (replicate n None))]) = Inr (replicate n None)
 \<and> spec_rule_fault JUndefined = Some NotAnObject
 \<and> constructor (JObject [(''rules'', JArray (Some JUndefined # rs))])
      = Inl (Error ''SetFilePermissionsPlugin: Rule at index 0 must be an object.'')
 \<and> (chmod ofs = Some f \<and> assets c \<noteq> [] \<longrightarrow>
      hook_throws (afterEmit join (None # rules) out res (Some ofs) c)
        = Some (TypeError ''Cannot read properties of undefined (reading 'patterns')'')
    \<and> completion (afterEmit join (None # rules) out res (Some ofs) c) = NotCalled
    \<and> chmod_calls (afterEmit join (None # rules) out res (Some ofs) c) = []
    \<and> files_after (afterEmit join (None # rules) out res (Some ofs) c) = Some (files ofs)
    \<and> compilation_after (afterEmit join (None # rules) out res (Some ofs) c) = c)"
proof (intro conjI impI)
  assume "is_object options \<and> field options ''rules'' = JArray rs
      \<and> (\<forall>r. Some r \<in> set rs \<longrightarrow> spec_rule_fault r = None)"
  then show "constructor options = Inr (map (map_option spec_normal_form) rs)"
    using map_rules_no_fault [of rs 0] by (simp add: constructor_object)
next
  have "map_rules 0 (replicate n None) = Inr (map (map_option spec_normal_form) (replicate n None))"
    by (rule map_rules_no_fault) simp
  then show "constructor (JObject [(''rules'', JArray (replicate n None))]) = Inr (replicate n None)"
    by (simp add: constructor_object field_def)
next
  show "spec_rule_fault JUndefined = Some NotAnObject"
    by (simp add: spec_rule_fault_def)
next
  show "constructor (JObject [(''rules'', JArray (Some JUndefined # rs))])
      = Inl (Error ''SetFilePermissionsPlugin: Rule at index 0 must be an object.'')"
    by (simp add: constructor_object field_def normalize_rule_spec spec_rule_fault_def
          show_nat.simps digit_char_def)
next
  assume h: "chmod ofs = Some f \<and> assets c \<noteq> []"
  then obtain a as where a: "assets c = a # as" by (cases "assets c") simp_all
  from h have f: "chmod ofs = Some f" by simp
  have e: "resolution_error res (None # rules) (assets c)
             = Some (TypeError ''Cannot read properties of undefined (reading 'patterns')'')"
    unfolding a by (rule resolution_stops_at_hole)
  have ops: "operations join (None # rules) out res (assets c) = []"
    by (simp add: operations_def resolution_stops_at_hole)
  then have i: "issued join (None # rules) out f res (files ofs) (assets c) = []"
    by (simp add: issued_zip)
  show "hook_throws (afterEmit join (None # rules) out res (Some ofs) c)
        = Some (TypeError ''Cannot read properties of undefined (reading 'patterns')'')"
    by (simp add: afterEmit_supported [OF f] e Let_def)
  show "completion (afterEmit join (None # rules) out res (Some ofs) c) = NotCalled"
    by (simp add: afterEmit_supported [OF f] e Let_def)
  show "chmod_calls (afterEmit join (None # rules) out res (Some ofs) c) = []"
    by (simp add: chmod_calls_supported [OF f] ops)
  show "files_after (afterEmit join (None # rules) out res (Some ofs) c) = Some (files ofs)"
    by (simp add: files_after_supported [OF f] ops)
  show "compilation_after (afterEmit join (None # rules) out res (Some ofs) c) = c"
    by (simp add: afterEmit_supported [OF f] e i Let_def run_callbacks_def List.map_filter_simps)
qed

text \<open>The configuration \<^verbatim>\<open>{rules: [ , rule]}\<close> and the scenario's assets.\<close>

theorem holes_in_rules_are_accepted_witness:
  "constructor sparse_options
     = Inr [None, Some \<lparr> permissions = JNum 493, patterns = [Some (JRegExp 0)] \<rparr>]
 \<and> constructor (JObject [(''rules'', JArray [None, None])]) = Inr [None, None]
 \<and> constructor (JObject [(''rules'', JArray [Some JUndefined, Some rule_js])])
     = Inl (Error ''SetFilePermissionsPlugin: Rule at index 0 must be an object.'')
 \<and> hook_throws (afterEmit slash_join
       [None, Some \<lparr> permissions = JNum 493, patterns = [Some (JRegExp 0)] \<rparr>] ''/out''
       scenario_regexps (Some \<lparr> chmod = Some chmod_ok, files = [] \<rparr>) scenario_compilation)
     = Some (TypeError ''Cannot read properties of undefined (reading 'patterns')'')
 \<and> completion (afterEmit slash_join
       [None, Some \<lparr> permissions = JNum 493, patterns = [Some (JRegExp 0)] \<rparr>] ''/out''
       scenario_regexps (Some \<lparr> chmod = Some chmod_ok, files = [] \<rparr>) scenario_compilation)
     = NotCalled
 \<and> files_after (afterEmit slash_join
       [None, Some \<lparr> permissions = JNum 493, patterns = [Some (JRegExp 0)] \<rparr>] ''/out''
       scenario_regexps (Some \<lparr> chmod = Some chmod_ok, files = [] \<rparr>) scenario_compilation)
     = Some []"
proof -
  let ?ofs = "\<lparr> chmod = Some chmod_ok, files = [] :: (string \<times> jsval) list \<rparr>"
  let ?rule = "\<lparr> permissions = JNum 493, patterns = [Some (JRegExp 0)] \<rparr>"
  note t = holes_in_rules_are_accepted
     [where options = sparse_options and rs = "[None, Some rule_js]" and n = 2
        and ofs = ?ofs and f = chmod_ok and c = scenario_compilation and join = slash_join
        and rules = "[Some ?rule]" and out = "''/out''" and res = scenario_regexps]
  have h1: "is_object sparse_options \<and> field sparse_options ''rules'' = JArray [None, Some rule_js]
      \<and> (\<forall>r. Some r \<in> set [None, Some rule_js] \<longrightarrow> spec_rule_fault r = None)"
    by (simp add: sparse_options_def field_def rule_js_fault)
  have h2: "chmod ?ofs = Some chmod_ok \<and> assets scenario_compilation \<noteq> []"
    by (simp add: scenario_compilation_def)
  from t h1 have a: "constructor sparse_options
      = Inr (map (map_option spec_normal_form) [None, Some rule_js])"
    by blast
  from t have b: "constructor (JObject [(''rules'', JArray (replicate 2 None))]) = Inr (replicate 2 None)"
    by blast
  from t have c': "constructor (JObject [(''rules'', JArray (Some JUndefined # [Some rule_js]))])
      = Inl (Error ''SetFilePermissionsPlugin: Rule at index 0 must be an object.'')"
    using holes_in_rules_are_accepted [where rs = "[Some rule_js]"] by blast
  from t h2 have d: "hook_throws (afterEmit slash_join (None # [Some ?rule]) ''/out'' scenario_regexps
         (Some ?ofs) scenario_compilation)
        = Some (TypeError ''Cannot read properties of undefined (reading 'patterns')'')"
    and e: "completion (afterEmit slash_join (None # [Some ?rule]) ''/out'' scenario_regexps
         (Some ?ofs) scenario_compilation) = NotCalled"
    and g: "files_after (afterEmit slash_join (None # [Some ?rule]) ''/out'' scenario_regexps
         (Some ?ofs) scenario_compilation) = Some (files ?ofs)"
    by blast+
  have r2: "replicate 2 None = [None, None :: jsval option]" "replicate 2 None = [None, None :: rule option]"
    by (simp_all add: numeral_2_eq_2)
  from a b c' d e g show ?thesis
    by (simp add: rule_js_normal_form r2)
qed

text \<open>
  Claim C7. A rule whose \<^verbatim>\<open>patterns\<close> is a single string or regular expression is
  normalised, at every index, as the same rule with the one-element array of that pattern;
  so two configurations that differ only in this way at some of their rules construct the
  same result. A constructed rule set holds, rule by rule, the \<^verbatim>\<open>permissions\<close> value of
  the configuration as it is and the patterns as a list: the elements of the array, or the
  single pattern alone.
\<close>

theorem single_pattern_is_one_element_array:
  "normalize_rule (to_array_form r) i = normalize_rule r i
 \<and> (is_object options \<and> is_object options'
      \<and> field options ''rules'' = JArray rs \<and> field options' ''rules'' = JArray rs'
      \<and> length rs' = length rs
      \<and> (\<forall>j<length rs. rs' ! j = rs ! j \<or> rs' ! j = map_option to_array_form (rs ! j)) \<longrightarrow>
      constructor options' = constructor options)
 \<and> (constructor options = Inr rules \<longrightarrow>
      rules = map (map_option spec_normal_form) (elements (field options ''rules''))
    \<and> (\<forall>j<length rules. \<forall>r0. elements (field options ''rules'') ! j = Some r0 \<longrightarrow>
          (\<exists>rule. rules ! j = Some rule
             \<and> permissions rule = field r0 ''permissions''
             \<and> (field r0 ''patterns'' = JArray (patterns rule)
                  \<or> patterns rule = [Some (field r0 ''patterns'')]))))"
proof (intro conjI impI)
  show "normalize_rule (to_array_form r) i = normalize_rule r i"
    by (rule normalize_rule_to_array_form)
next
  assume "is_object options \<and> is_object options'
      \<and> field options ''rules'' = JArray rs \<and> field options' ''rules'' = JArray rs'
      \<and> length rs' = length rs
      \<and> (\<forall>j<length rs. rs' ! j = rs ! j \<or> rs' ! j = map_option to_array_form (rs ! j))"
  then show "constructor options' = constructor options"
    using map_rules_to_array_form [of rs' rs 0] by (simp add: constructor_object)
next
  assume c: "constructor options = Inr rules"
  then show r: "rules = map (map_option spec_normal_form) (elements (field options ''rules''))"
    by (rule constructor_result)
  show "\<forall>j<length rules. \<forall>r0. elements (field options ''rules'') ! j = Some r0 \<longrightarrow>
          (\<exists>rule. rules ! j = Some rule
             \<and> permissions rule = field r0 ''permissions''
             \<and> (field r0 ''patterns'' = JArray (patterns rule)
                  \<or> patterns rule = [Some (field r0 ''patterns'')]))"
  proof (intro allI impI)
    fix j r0 assume j: "j < length rules" and e: "elements (field options ''rules'') ! j = Some r0"
    from j r have "rules ! j = map_option spec_normal_form (elements (field options ''rules'') ! j)"
      by simp
    with e have "rules ! j = Some (spec_normal_form r0)" by simp
    moreover have "permissions (spec_normal_form r0) = field r0 ''permissions''
       \<and> (field r0 ''patterns'' = JArray (patterns (spec_normal_form r0))
            \<or> patterns (spec_normal_form r0) = [Some (field r0 ''patterns'')])"
      by (cases "field r0 ''patterns''") (simp_all add: spec_normal_form_def)
    ultimately show "\<exists>rule. rules ! j = Some rule
             \<and> permissions rule = field r0 ''permissions''
             \<and> (field r0 ''patterns'' = JArray (patterns rule)
                  \<or> patterns rule = [Some (field r0 ''patterns'')])"
      by blast
  qed
qed

text \<open>The scenario's configuration with the first rule's pattern single and in an array.\<close>

theorem single_pattern_is_one_element_array_witness:
  "to_array_form rule_js
     = JObject [(''permissions'', JNum 493), (''patterns'', JArray [Some (JRegExp 0)])]
 \<and> constructor scenario_options_arrays = constructor scenario_options
 \<and> constructor scenario_options = Inr (map Some scenario_rules)
 \<and> (\<exists>rule. map Some scenario_rules ! 0 = Some rule
        \<and> permissions rule = JNum 493 \<and> patterns rule = [Some (JRegExp 0)])"
proof -
  let ?rs = "[Some rule_js, Some rule_css]"
  let ?rs' = "[Some (to_array_form rule_js), Some rule_css]"
  have h: "is_object scenario_options \<and> is_object scenario_options_arrays
      \<and> field scenario_options ''rules'' = JArray ?rs
      \<and> field scenario_options_arrays ''rules'' = JArray ?rs'
      \<and> length ?rs' = length ?rs
      \<and> (\<forall>j<length ?rs. ?rs' ! j = ?rs ! j \<or> ?rs' ! j = map_option to_array_form (?rs ! j))"
    by (simp add: scenario_options_def scenario_options_arrays_def field_def less_Suc_eq)
  note t = single_pattern_is_one_element_array
             [of rule_js 0 scenario_options scenario_options_arrays ?rs ?rs' "map Some scenario_rules"]
  from t h have a: "constructor scenario_options_arrays = constructor scenario_options"
    by blast
  from t scenario_constructor have
    b: "\<forall>j<length (map Some scenario_rules). \<forall>r0. elements (field scenario_options ''rules'') ! j = Some r0 \<longrightarrow>
          (\<exists>rule. map Some scenario_rules ! j = Some rule
             \<and> permissions rule = field r0 ''permissions''
             \<and> (field r0 ''patterns'' = JArray (patterns rule)
                  \<or> patterns rule = [Some (field r0 ''patterns'')]))"
    by blast
  have l: "0 < length (map Some scenario_rules)" by (simp add: scenario_rules_def)
  have e: "elements (field scenario_options ''rules'') ! 0 = Some rule_js"
    by (simp add: scenario_options_def field_def)
  have f: "field rule_js ''patterns'' = JRegExp 0" "field rule_js ''permissions'' = JNum 493"
    by (simp_all add: field_def rule_js_def)
  from b l e obtain rule where "map Some scenario_rules ! 0 = Some rule"
      "permissions rule = field rule_js ''permissions''"
      "field rule_js ''patterns'' = JArray (patterns rule)
          \<or> patterns rule = [Some (field rule_js ''patterns'')]"
    by blast
  with f have c: "\<exists>rule. map Some scenario_rules ! 0 = Some rule
        \<and> permissions rule = JNum 493 \<and> patterns rule = [Some (JRegExp 0)]"
    by auto
  have d: "to_array_form rule_js
     = JObject [(''permissions'', JNum 493), (''patterns'', JArray [Some (JRegExp 0)])]"
    by (simp add: rule_js_def)
  from a c d scenario_constructor show ?thesis by blast
qed

text \<open>
  Claim C8. A rule whose \<^verbatim>\<open>permissions\<close> is \<^verbatim>\<open>0\<close> is not rejected as lacking
  permissions, and with well-shaped patterns it is normalised with the permissions \<^verbatim>\<open>0\<close>;
  a constructed rule set holds \<^verbatim>\<open>0\<close> where the configuration does. The hook applies the
  primitive to exactly the operations of the assets that match resolution resolves, in
  their order, so that the file system is left in the state in which these calls of the
  primitive put it; the operation of an asset resolved to a rule with the permissions
  \<^verbatim>\<open>0\<close> has the mode \<^verbatim>\<open>0\<close>, and a primitive that records what it is called with has
  recorded the asset's path with the mode \<^verbatim>\<open>0\<close>.
\<close>

theorem zero_permissions_pass_through:
  "(is_object r \<and> field r ''permissions'' = JNum 0 \<longrightarrow>
      normalize_rule r i \<noteq> Inl (Error (spec_rule_message PermissionsMissing i))
    \<and> (pattern_shape (field r ''patterns'') \<longrightarrow>
         normalize_rule r i = Inr \<lparr> permissions = JNum 0,
            patterns = (case field r ''patterns'' of JArray xs \<Rightarrow> xs | p \<Rightarrow> [Some p]) \<rparr>))
 \<and> (constructor options = Inr constructed \<and> j < length constructed
      \<and> elements (field options ''rules'') ! j = Some r1
      \<and> field r1 ''permissions'' = JNum 0 \<longrightarrow>
      (\<exists>rule. constructed ! j = Some rule \<and> permissions rule = JNum 0))
 \<and> (chmod ofs = Some f \<longrightarrow>
      chmod_calls (afterEmit join rules out rs (Some ofs) c)
         = operations join rules out rs (assets c)
    \<and> files_after (afterEmit join rules out rs (Some ofs) c)
         = Some (received f (files ofs) (operations join rules out rs (assets c)))
    \<and> issued join rules out f rs (files ofs) (assets c)
         = zip (operations join rules out rs (assets c))
               (answers f (files ofs) (operations join rules out rs (assets c)))
    \<and> (\<forall>k<length (resolved rs rules (assets c)).
          permissions (snd (resolved rs rules (assets c) ! k)) = JNum 0 \<longrightarrow>
          operations join rules out rs (assets c) ! k
            = (join out (fst (resolved rs rules (assets c) ! k)), JNum 0))
    \<and> ((a, r0) \<in> set (resolved rs rules (assets c)) \<and> permissions r0 = JNum 0 \<longrightarrow>
          (join out a, JNum 0) \<in> set (chmod_calls (afterEmit join rules out rs (Some ofs) c))))
 \<and> (chmod recorder = Some g \<and> (\<forall>fs p m. snd (g fs p m) = fs @ [(p, m)])
      \<and> (a, r0) \<in> set (resolved rs rules (assets c)) \<and> permissions r0 = JNum 0 \<longrightarrow>
      files_after (afterEmit join rules out rs (Some recorder) c)
         = Some (files recorder @ operations join rules out rs (assets c))
    \<and> (join out a, JNum 0) \<in> set (operations join rules out rs (assets c)))
 \<and> (chmod ofs = Some f \<and> unflagged rs dense
      \<and> matchingRule rs (map Some dense) a' = (Inr (Some r0'), rs') \<and> permissions r0' = JNum 0
      \<and> a' \<in> set (assets c) \<longrightarrow>
      (join out a', JNum 0) \<in> set (chmod_calls (afterEmit join (map Some dense) out rs (Some ofs) c)))"
proof (intro conjI impI allI)
  assume h: "is_object r \<and> field r ''permissions'' = JNum 0"
  show "normalize_rule r i \<noteq> Inl (Error (spec_rule_message PermissionsMissing i))"
  proof
    assume "normalize_rule r i = Inl (Error (spec_rule_message PermissionsMissing i))"
    then obtain k where "spec_rule_fault r = Some k"
        "spec_rule_message k i = spec_rule_message PermissionsMissing i"
      by (auto simp: normalize_rule_spec split: option.splits)
    then have "spec_rule_fault r = Some PermissionsMissing"
      using spec_rule_message_inject [of k i PermissionsMissing i] by blast
    with h show False by (simp add: spec_rule_fault_def split: if_splits)
  qed
  assume "pattern_shape (field r ''patterns'')"
  with h have "spec_rule_fault r = None"
    by (cases "field r ''patterns''") (simp_all add: spec_rule_fault_def)
  with h show "normalize_rule r i = Inr \<lparr> permissions = JNum 0,
            patterns = (case field r ''patterns'' of JArray xs \<Rightarrow> xs | p \<Rightarrow> [Some p]) \<rparr>"
    by (simp add: normalize_rule_spec spec_normal_form_def)
next
  assume h: "constructor options = Inr constructed \<and> j < length constructed
      \<and> elements (field options ''rules'') ! j = Some r1
      \<and> field r1 ''permissions'' = JNum 0"
  then have "constructed = map (map_option spec_normal_form) (elements (field options ''rules''))"
    by (simp add: constructor_result)
  with h have "constructed ! j = Some (spec_normal_form r1)" by simp
  with h show "\<exists>rule. constructed ! j = Some rule \<and> permissions rule = JNum 0"
    by (simp add: spec_normal_form_def)
next
  assume f: "chmod ofs = Some f"
  then show calls: "chmod_calls (afterEmit join rules out rs (Some ofs) c)
         = operations join rules out rs (assets c)"
    by (rule chmod_calls_supported)
  from f show "files_after (afterEmit join rules out rs (Some ofs) c)
         = Some (received f (files ofs) (operations join rules out rs (assets c)))"
    by (rule files_after_supported)
  show "issued join rules out f rs (files ofs) (assets c)
         = zip (operations join rules out rs (assets c))
               (answers f (files ofs) (operations join rules out rs (assets c)))"
    by (rule issued_zip)
  {
    fix k
    assume "k < length (resolved rs rules (assets c))"
       and "permissions (snd (resolved rs rules (assets c) ! k)) = JNum 0"
    then show "operations join rules out rs (assets c) ! k
            = (join out (fst (resolved rs rules (assets c) ! k)), JNum 0)"
      by (simp add: operations_nth)
  }
  assume "(a, r0) \<in> set (resolved rs rules (assets c)) \<and> permissions r0 = JNum 0"
  then show "(join out a, JNum 0) \<in> set (chmod_calls (afterEmit join rules out rs (Some ofs) c))"
    using resolved_operation [of a r0 rs rules "assets c" join out] calls by simp
next
  assume h: "chmod recorder = Some g \<and> (\<forall>fs p m. snd (g fs p m) = fs @ [(p, m)])
      \<and> (a, r0) \<in> set (resolved rs rules (assets c)) \<and> permissions r0 = JNum 0"
  then show "files_after (afterEmit join rules out rs (Some recorder) c)
         = Some (files recorder @ operations join rules out rs (assets c))"
    by (simp add: files_after_recording)
  from h show "(join out a, JNum 0) \<in> set (operations join rules out rs (assets c))"
    using resolved_operation [of a r0 rs rules "assets c" join out] by simp
next
  assume h: "chmod ofs = Some f \<and> unflagged rs dense
      \<and> matchingRule rs (map Some dense) a' = (Inr (Some r0'), rs') \<and> permissions r0' = JNum 0
      \<and> a' \<in> set (assets c)"
  then have "(a', r0') \<in> set (resolved rs (map Some dense) (assets c))"
    by (simp add: resolved_unflagged_member)
  from resolved_operation [OF this, of join out] h
  show "(join out a', JNum 0) \<in> set (chmod_calls (afterEmit join (map Some dense) out rs (Some ofs) c))"
    by (simp add: chmod_calls_supported)
qed

text \<open>The plugin's own test: permissions \<^verbatim>\<open>0\<close> for \<^verbatim>\<open>script.js\<close>.\<close>

theorem zero_permissions_pass_through_witness:
  "constructor zero_options = Inr (map Some zero_rules)
 \<and> normalize_rule (JObject [(''permissions'', JNum 0), (''patterns'', JStr ''script.js'')]) 0
      = Inr \<lparr> permissions = JNum 0, patterns = [Some (JStr ''script.js'')] \<rparr>
 \<and> (\<exists>rule. map Some zero_rules ! 0 = Some rule \<and> permissions rule = JNum 0)
 \<and> chmod_calls (afterEmit slash_join (map Some zero_rules) ''/out'' scenario_regexps
        (Some \<lparr> chmod = Some chmod_ok, files = [] \<rparr>)
        \<lparr> assets = [''script.js''], warnings = [], errors = [] \<rparr>)
      = [(''/out/script.js'', JNum 0)]
 \<and> files_after (afterEmit slash_join (map Some zero_rules) ''/out'' scenario_regexps
        (Some \<lparr> chmod = Some chmod_ok, files = [] \<rparr>)
        \<lparr> assets = [''script.js''], warnings = [], errors = [] \<rparr>)
      = Some [(''/out/script.js'', JNum 0)]
 \<and> issued slash_join (map Some zero_rules) ''/out'' chmod_ok scenario_regexps [] [''script.js'']
      = [((''/out/script.js'', JNum 0), CallsBack 0 None)]
 \<and> operations slash_join (map Some zero_rules) ''/out'' scenario_regexps [''script.js''] ! 0
      = (''/out/script.js'', JNum 0)
 \<and> (''/out/script.js'', JNum 0)
      \<in> set (chmod_calls (afterEmit slash_join (map Some zero_rules) ''/out'' scenario_regexps
        (Some \<lparr> chmod = Some chmod_ok, files = [] \<rparr>)
        \<lparr> assets = [''script.js''], warnings = [], errors = [] \<rparr>))"
proof -
  let ?r = "JObject [(''permissions'', JNum 0), (''patterns'', JStr ''script.js'')]"
  let ?rule = "\<lparr> permissions = JNum 0, patterns = [Some (JStr ''script.js'')] \<rparr>"
  let ?ofs = "\<lparr> chmod = Some chmod_ok, files = [] :: (string \<times> jsval) list \<rparr>"
  let ?c = "\<lparr> assets = [''script.js''], warnings = [], errors = [] \<rparr>"
  let ?res = "afterEmit slash_join (map Some zero_rules) ''/out'' scenario_regexps (Some ?ofs) ?c"
  let ?ops = "operations slash_join (map Some zero_rules) ''/out'' scenario_regexps (assets ?c)"
  let ?resolved = "resolved scenario_regexps (map Some zero_rules) (assets ?c)"
  note t = zero_permissions_pass_through
     [where r = ?r and i = 0 and options = zero_options and constructed = "map Some zero_rules"
        and j = 0 and ?r1.0 = ?r and ofs = ?ofs and f = chmod_ok and join = slash_join
        and rules = "map Some zero_rules" and out = "''/out''" and rs = scenario_regexps
        and c = ?c and a = "''script.js''" and ?r0.0 = ?rule and recorder = ?ofs and g = chmod_ok
        and dense = zero_rules and a' = "''script.js''" and ?r0' = ?rule and rs' = scenario_regexps]
  have res: "?resolved = [(''script.js'', ?rule)]"
    by (simp only: compilation.simps zero_resolved)
  have ops: "?ops = [(''/out/script.js'', JNum 0)]"
    by (simp only: compilation.simps zero_operations)
  have h1: "is_object ?r \<and> field ?r ''permissions'' = JNum 0" "pattern_shape (field ?r ''patterns'')"
    by (simp_all add: field_def)
  have h2: "constructor zero_options = Inr (map Some zero_rules) \<and> 0 < length (map Some zero_rules)
      \<and> elements (field zero_options ''rules'') ! 0 = Some ?r \<and> field ?r ''permissions'' = JNum 0"
    by (simp add: zero_constructor) (simp add: zero_options_def zero_rules_def field_def)
  have h3: "chmod ?ofs = Some chmod_ok" by simp
  have h3a: "0 < length ?resolved" "permissions (snd (?resolved ! 0)) = JNum 0"
    by (simp_all only: res) simp_all
  have h3b: "(''script.js'', ?rule) \<in> set ?resolved \<and> permissions ?rule = JNum 0"
    by (simp only: res) simp
  have h4: "chmod ?ofs = Some chmod_ok \<and> (\<forall>fs p m. snd (chmod_ok fs p m) = fs @ [(p, m)])
      \<and> (''script.js'', ?rule) \<in> set ?resolved \<and> permissions ?rule = JNum 0"
    using h3b by (simp add: chmod_ok_def del: resolved.simps)
  have h5: "chmod ?ofs = Some chmod_ok \<and> unflagged scenario_regexps zero_rules
      \<and> matchingRule scenario_regexps (map Some zero_rules) ''script.js''
            = (Inr (Some ?rule), scenario_regexps)
      \<and> permissions ?rule = JNum 0 \<and> ''script.js'' \<in> set (assets ?c)"
    by (simp add: zero_unflagged matchingRule_unflagged zero_match_result)
  from t h1 have a: "normalize_rule ?r 0 = Inr \<lparr> permissions = JNum 0,
            patterns = (case field ?r ''patterns'' of JArray xs \<Rightarrow> xs | p \<Rightarrow> [Some p]) \<rparr>"
    by blast
  have a': "(case field ?r ''patterns'' of JArray xs \<Rightarrow> xs | p \<Rightarrow> [Some p]) = [Some (JStr ''script.js'')]"
    by (simp add: field_def)
  from t h2 have b: "\<exists>rule. map Some zero_rules ! 0 = Some rule \<and> permissions rule = JNum 0"
    by blast
  from t h3 have c: "chmod_calls ?res = ?ops"
    and d: "files_after ?res = Some (received chmod_ok (files ?ofs) ?ops)"
    and i: "issued slash_join (map Some zero_rules) ''/out'' chmod_ok scenario_regexps (files ?ofs) (assets ?c)
              = zip ?ops (answers chmod_ok (files ?ofs) ?ops)"
    by blast+
  from t h3 h3a have k: "?ops ! 0 = (slash_join ''/out'' (fst (?resolved ! 0)), JNum 0)"
    by blast
  from t h3 h3b have m: "(slash_join ''/out'' ''script.js'', JNum 0) \<in> set (chmod_calls ?res)"
    by blast
  from t h4 have e: "files_after ?res = Some (files ?ofs @ ?ops)"
    by blast
  from t h5 have n: "(slash_join ''/out'' ''script.js'', JNum 0) \<in> set (chmod_calls ?res)"
    by blast
  from c ops have c': "chmod_calls ?res = [(''/out/script.js'', JNum 0)]" by simp
  from e ops have e': "files_after ?res = Some [(''/out/script.js'', JNum 0)]" by simp
  from d ops have d': "files_after ?res = Some [(''/out/script.js'', JNum 0)]"
    by (simp add: received_chmod_ok del: received.simps)
  from i have i': "issued slash_join (map Some zero_rules) ''/out'' chmod_ok scenario_regexps [] [''script.js'']
      = [((''/out/script.js'', JNum 0), CallsBack 0 None)]"
    unfolding ops by (simp add: chmod_ok_def)
  from k have k': "operations slash_join (map Some zero_rules) ''/out'' scenario_regexps [''script.js''] ! 0
      = (''/out/script.js'', JNum 0)"
    unfolding res by (simp add: slash_join_def del: resolved.simps)
  from m n have m': "(''/out/script.js'', JNum 0) \<in> set (chmod_calls ?res)"
    by (simp add: slash_join_def)
  from a a' b c' d' e' i' k' m' zero_constructor show ?thesis by simp
qed

text \<open>
  Claim C9. A rule whose \<^verbatim>\<open>patterns\<close> is an array is accepted with the elements of the
  array as they are, whatever they are. A pattern that is neither a string nor a regular
  expression matches no asset name and leaves the regular expressions as they are: the
  hook behaves as if such patterns were not there, and rules that hold no other patterns
  cause no call of the primitive, whose state stays what it was.
\<close>

theorem unchecked_array_elements_match_nothing:
  "(is_object r \<and> field r ''permissions'' \<noteq> JUndefined \<and> field r ''patterns'' = JArray xs \<longrightarrow>
      normalize_rule r i = Inr \<lparr> permissions = field r ''permissions'', patterns = xs \<rparr>)
 \<and> (typeof p \<noteq> ''string'' \<and> \<not> instanceof_RegExp p \<longrightarrow> pattern_matches rs a p = (False, rs))
 \<and> afterEmit join (map (map_option without_other_patterns) rules) out rs outputFileSystem c
      = afterEmit join rules out rs outputFileSystem c
 \<and> (chmod ofs = Some f
      \<and> (\<forall>r. Some r \<in> set rules \<longrightarrow>
            (\<forall>p. Some p \<in> set (patterns r) \<longrightarrow> typeof p \<noteq> ''string'' \<and> \<not> instanceof_RegExp p)) \<longrightarrow>
      chmod_calls (afterEmit join rules out rs (Some ofs) c) = []
    \<and> files_after (afterEmit join rules out rs (Some ofs) c) = Some (files ofs))"
proof (intro conjI impI)
  assume h: "is_object r \<and> field r ''permissions'' \<noteq> JUndefined \<and> field r ''patterns'' = JArray xs"
  then have "spec_rule_fault r = None" by (simp add: spec_rule_fault_def)
  with h show "normalize_rule r i = Inr \<lparr> permissions = field r ''permissions'', patterns = xs \<rparr>"
    by (simp add: normalize_rule_spec spec_normal_form_def)
next
  assume "typeof p \<noteq> ''string'' \<and> \<not> instanceof_RegExp p"
  then show "pattern_matches rs a p = (False, rs)" by (rule pattern_matches_other)
next
  show "afterEmit join (map (map_option without_other_patterns) rules) out rs outputFileSystem c
      = afterEmit join rules out rs outputFileSystem c"
    by (rule afterEmit_without_other)
next
  assume h: "chmod ofs = Some f
      \<and> (\<forall>r. Some r \<in> set rules \<longrightarrow>
            (\<forall>p. Some p \<in> set (patterns r) \<longrightarrow> typeof p \<noteq> ''string'' \<and> \<not> instanceof_RegExp p))"
  then have "resolved rs rules (assets c) = []"
    by (simp add: resolved_unusable)
  then have ops: "operations join rules out rs (assets c) = []"
    by (simp add: operations_def)
  from h ops show "chmod_calls (afterEmit join rules out rs (Some ofs) c) = []"
    by (simp add: chmod_calls_supported)
  from h ops show "files_after (afterEmit join rules out rs (Some ofs) c) = Some (files ofs)"
    by (simp add: files_after_supported)
qed

text \<open>A patterns array holding a number, \<^verbatim>\<open>null\<close>, a hole, an object and a string.\<close>

theorem unchecked_array_elements_match_nothing_witness:
  "constructor odd_patterns_options = Inr (map Some odd_patterns_rules)
 \<and> normalize_rule (JObject [(''permissions'', JNum 493),
        (''patterns'', JArray [Some (JNum 42), Some JNull, None, Some (JObject []), Some (JStr ''cli.js'')])]) 0
     = Inr \<lparr> permissions = JNum 493,
             patterns = [Some (JNum 42), Some JNull, None, Some (JObject []), Some (JStr ''cli.js'')] \<rparr>
 \<and> pattern_matches scenario_regexps ''42'' (JNum 42) = (False, scenario_regexps)
 \<and> chmod_calls (afterEmit slash_join (map Some unusable_rules) ''/out'' scenario_regexps
        (Some \<lparr> chmod = Some chmod_ok, files = [] \<rparr>)
        \<lparr> assets = [''42'', ''null'', ''cli.js''], warnings = [], errors = [] \<rparr>) = []
 \<and> files_after (afterEmit slash_join (map Some unusable_rules) ''/out'' scenario_regexps
        (Some \<lparr> chmod = Some chmod_ok, files = [] \<rparr>)
        \<lparr> assets = [''42'', ''null'', ''cli.js''], warnings = [], errors = [] \<rparr>) = Some []
 \<and> afterEmit slash_join (map Some odd_patterns_rules) ''/out'' scenario_regexps
        (Some \<lparr> chmod = Some chmod_ok, files = [] \<rparr>)
        \<lparr> assets = [''42'', ''null'', ''cli.js''], warnings = [], errors = [] \<rparr>
     = afterEmit slash_join [Some \<lparr> permissions = JNum 493, patterns = [Some (JStr ''cli.js'')] \<rparr>] ''/out''
        scenario_regexps
        (Some \<lparr> chmod = Some chmod_ok, files = [] \<rparr>)
        \<lparr> assets = [''42'', ''null'', ''cli.js''], warnings = [], errors = [] \<rparr>"
proof -
  let ?xs = "[Some (JNum 42), Some JNull, None, Some (JObject []), Some (JStr ''cli.js'')]"
  let ?r = "JObject [(''permissions'', JNum 493), (''patterns'', JArray ?xs)]"
  let ?ofs = "\<lparr> chmod = Some chmod_ok, files = [] :: (string \<times> jsval) list \<rparr>"
  let ?c = "\<lparr> assets = [''42'', ''null'', ''cli.js''], warnings = [], errors = [] \<rparr>"
  note t1 = unchecked_array_elements_match_nothing
     [of ?r ?xs 0 "JNum 42" scenario_regexps "''42''"
         slash_join "map Some odd_patterns_rules" "''/out''" "Some ?ofs" ?c ?ofs chmod_ok]
  note t2 = unchecked_array_elements_match_nothing
     [of ?r ?xs 0 "JNum 42" scenario_regexps "''42''"
         slash_join "map Some unusable_rules" "''/out''" "Some ?ofs" ?c ?ofs chmod_ok]
  have h1: "is_object ?r \<and> field ?r ''permissions'' \<noteq> JUndefined \<and> field ?r ''patterns'' = JArray ?xs"
    by (simp add: field_def)
  have h2: "typeof (JNum 42) \<noteq> ''string'' \<and> \<not> instanceof_RegExp (JNum 42)" by simp
  have h3: "chmod ?ofs = Some chmod_ok
      \<and> (\<forall>r. Some r \<in> set (map Some unusable_rules) \<longrightarrow>
            (\<forall>p. Some p \<in> set (patterns r) \<longrightarrow> typeof p \<noteq> ''string'' \<and> \<not> instanceof_RegExp p))"
    by (auto simp: unusable_rules_def)
  from t1 h1 have a: "normalize_rule ?r 0
      = Inr \<lparr> permissions = field ?r ''permissions'', patterns = ?xs \<rparr>"
    by blast
  have a': "field ?r ''permissions'' = JNum 493" by (simp add: field_def)
  from t1 h2 have b: "pattern_matches scenario_regexps ''42'' (JNum 42) = (False, scenario_regexps)"
    by blast
  from t2 h3 have c: "chmod_calls (afterEmit slash_join (map Some unusable_rules) ''/out''
         scenario_regexps (Some ?ofs) ?c) = []"
    and c': "files_after (afterEmit slash_join (map Some unusable_rules) ''/out''
         scenario_regexps (Some ?ofs) ?c) = Some (files ?ofs)"
    by blast+
  from t1 have "afterEmit slash_join (map (map_option without_other_patterns) (map Some odd_patterns_rules))
         ''/out'' scenario_regexps (Some ?ofs) ?c
      = afterEmit slash_join (map Some odd_patterns_rules) ''/out'' scenario_regexps (Some ?ofs) ?c"
    by blast
  moreover have "map (map_option without_other_patterns) (map Some odd_patterns_rules)
      = [Some \<lparr> permissions = JNum 493, patterns = [Some (JStr ''cli.js'')] \<rparr>]"
    by (simp add: odd_patterns_rules_def without_other_patterns_def)
  ultimately have d: "afterEmit slash_join (map Some odd_patterns_rules) ''/out'' scenario_regexps (Some ?ofs) ?c
     = afterEmit slash_join [Some \<lparr> permissions = JNum 493, patterns = [Some (JStr ''cli.js'')] \<rparr>]
         ''/out'' scenario_regexps (Some ?ofs) ?c"
    by simp
  from a a' b c c' d odd_patterns_constructor show ?thesis by simp
qed

text \<open>
  Claim C10. The constructor rejects a rule, which is an object, for its permissions exactly
  when the value of \<^verbatim>\<open>permissions\<close> is \<^verbatim>\<open>undefined\<close>; every other value, of whatever
  type and range, is stored as it is. The hook applies the primitive to exactly the
  operations of the assets that match resolution resolves, in their order, so that the
  file system is left in the state in which these calls of the primitive put it; the mode
  of the operation of an asset is the permissions value of the rule the asset is resolved
  to, as it is, and a primitive that records what it is called with has recorded the
  asset's path with that value.
\<close>

theorem only_undefined_permissions_are_rejected:
  "(is_object r \<longrightarrow>
      (normalize_rule r i = Inl (Error (spec_rule_message PermissionsMissing i))
         \<longleftrightarrow> field r ''permissions'' = JUndefined))
 \<and> (is_object r \<and> field r ''permissions'' \<noteq> JUndefined \<and> pattern_shape (field r ''patterns'') \<longrightarrow>
      normalize_rule r i = Inr \<lparr> permissions = field r ''permissions'',
            patterns = (case field r ''patterns'' of JArray xs \<Rightarrow> xs | p \<Rightarrow> [Some p]) \<rparr>)
 \<and> (constructor options = Inr constructed \<and> j < length constructed
      \<and> elements (field options ''rules'') ! j = Some r1 \<longrightarrow>
      (\<exists>rule. constructed ! j = Some rule \<and> permissions rule = field r1 ''permissions''))
 \<and> (chmod ofs = Some f \<longrightarrow>
      chmod_calls (afterEmit join rules out rs (Some ofs) c)
         = operations join rules out rs (assets c)
    \<and> files_after (afterEmit join rules out rs (Some ofs) c)
         = Some (received f (files ofs) (operations join rules out rs (assets c)))
    \<and> issued join rules out f rs (files ofs) (assets c)
         = zip (operations join rules out rs (assets c))
               (answers f (files ofs) (operations join rules out rs (assets c)))
    \<and> (\<forall>k<length (resolved rs rules (assets c)).
          operations join rules out rs (assets c) ! k
            = (join out (fst (resolved rs rules (assets c) ! k)),
               permissions (snd (resolved rs rules (assets c) ! k))))
    \<and> ((a, r0) \<in> set (resolved rs rules (assets c)) \<longrightarrow>
          (join out a, permissions r0) \<in> set (chmod_calls (afterEmit join rules out rs (Some ofs) c))))
 \<and> (chmod recorder = Some g \<and> (\<forall>fs p m. snd (g fs p m) = fs @ [(p, m)])
      \<and> (a, r0) \<in> set (resolved rs rules (assets c)) \<longrightarrow>
      files_after (afterEmit join rules out rs (Some recorder) c)
         = Some (files recorder @ operations join rules out rs (assets c))
    \<and> (join out a, permissions r0) \<in> set (operations join rules out rs (assets c)))
 \<and> (chmod ofs = Some f \<and> unflagged rs dense
      \<and> matchingRule rs (map Some dense) a' = (Inr (Some r0'), rs') \<and> a' \<in> set (assets c) \<longrightarrow>
      (join out a', permissions r0')
         \<in> set (chmod_calls (afterEmit join (map Some dense) out rs (Some ofs) c)))"
proof (intro conjI impI allI)
  assume obj: "is_object r"
  show "normalize_rule r i = Inl (Error (spec_rule_message PermissionsMissing i))
         \<longleftrightarrow> field r ''permissions'' = JUndefined"
  proof
    assume "normalize_rule r i = Inl (Error (spec_rule_message PermissionsMissing i))"
    then obtain k where "spec_rule_fault r = Some k"
        "spec_rule_message k i = spec_rule_message PermissionsMissing i"
      by (auto simp: normalize_rule_spec split: option.splits)
    then have "spec_rule_fault r = Some PermissionsMissing"
      using spec_rule_message_inject [of k i PermissionsMissing i] by blast
    with obj show "field r ''permissions'' = JUndefined"
      by (simp add: spec_rule_fault_def split: if_splits)
  next
    assume "field r ''permissions'' = JUndefined"
    with obj have "spec_rule_fault r = Some PermissionsMissing"
      by (simp add: spec_rule_fault_def)
    then show "normalize_rule r i = Inl (Error (spec_rule_message PermissionsMissing i))"
      by (simp add: normalize_rule_spec)
  qed
next
  assume h: "is_object r \<and> field r ''permissions'' \<noteq> JUndefined \<and> pattern_shape (field r ''patterns'')"
  then have "spec_rule_fault r = None"
    by (cases "field r ''patterns''") (simp_all add: spec_rule_fault_def)
  then show "normalize_rule r i = Inr \<lparr> permissions = field r ''permissions'',
            patterns = (case field r ''patterns'' of JArray xs \<Rightarrow> xs | p \<Rightarrow> [Some p]) \<rparr>"
    by (simp add: normalize_rule_spec spec_normal_form_def)
next
  assume h: "constructor options = Inr constructed \<and> j < length constructed
      \<and> elements (field options ''rules'') ! j = Some r1"
  then have "constructed = map (map_option spec_normal_form) (elements (field options ''rules''))"
    by (simp add: constructor_result)
  with h have "constructed ! j = Some (spec_normal_form r1)" by simp
  then show "\<exists>rule. constructed ! j = Some rule \<and> permissions rule = field r1 ''permissions''"
    by (simp add: spec_normal_form_def)
next
  assume f: "chmod ofs = Some f"
  then show calls: "chmod_calls (afterEmit join rules out rs (Some ofs) c)
         = operations join rules out rs (assets c)"
    by (rule chmod_calls_supported)
  from f show "files_after (afterEmit join rules out rs (Some ofs) c)
         = Some (received f (files ofs) (operations join rules out rs (assets c)))"
    by (rule files_after_supported)
  show "issued join rules out f rs (files ofs) (assets c)
         = zip (operations join rules out rs (assets c))
               (answers f (files ofs) (operations join rules out rs (assets c)))"
    by (rule issued_zip)
  {
    fix k
    assume "k < length (resolved rs rules (assets c))"
    then show "operations join rules out rs (assets c) ! k
            = (join out (fst (resolved rs rules (assets c) ! k)),
               permissions (snd (resolved rs rules (assets c) ! k)))"
      by (rule operations_nth)
  }
  assume "(a, r0) \<in> set (resolved rs rules (assets c))"
  then show "(join out a, permissions r0) \<in> set (chmod_calls (afterEmit join rules out rs (Some ofs) c))"
    using resolved_operation [of a r0 rs rules "assets c" join out] calls by simp
next
  assume h: "chmod recorder = Some g \<and> (\<forall>fs p m. snd (g fs p m) = fs @ [(p, m)])
      \<and> (a, r0) \<in> set (resolved rs rules (assets c))"
  then show "files_after (afterEmit join rules out rs (Some recorder) c)
         = Some (files recorder @ operations join rules out rs (assets c))"
    by (simp add: files_after_recording)
  from h show "(join out a, permissions r0) \<in> set (operations join rules out rs (assets c))"
    using resolved_operation [of a r0 rs rules "assets c" join out] by simp
next
  assume h: "chmod ofs = Some f \<and> unflagged rs dense
      \<and> matchingRule rs (map Some dense) a' = (Inr (Some r0'), rs') \<and> a' \<in> set (assets c)"
  then have "(a', r0') \<in> set (resolved rs (map Some dense) (assets c))"
    by (simp add: resolved_unflagged_member)
  from resolved_operation [OF this, of join out] h
  show "(join out a', permissions r0')
         \<in> set (chmod_calls (afterEmit join (map Some dense) out rs (Some ofs) c))"
    by (simp add: chmod_calls_supported)
qed

text \<open>Permissions \<^verbatim>\<open>null\<close>, \<^verbatim>\<open>'755'\<close> and \<^verbatim>\<open>-1\<close> reach the primitive.\<close>

theorem only_undefined_permissions_are_rejected_witness:
  "normalize_rule rule_without_permissions 1
     = Inl (Error ''SetFilePermissionsPlugin: \"permissions\" option is required for rule at index 1.'')
 \<and> normalize_rule (JObject [(''permissions'', JNull), (''patterns'', JStr ''a.txt'')]) 0
     = Inr \<lparr> permissions = JNull, patterns = [Some (JStr ''a.txt'')] \<rparr>
 \<and> constructor odd_permissions_options = Inr (map Some odd_permissions_rules)
 \<and> (\<exists>rule. map Some odd_permissions_rules ! 1 = Some rule \<and> permissions rule = JStr ''755'')
 \<and> chmod_calls (afterEmit slash_join (map Some odd_permissions_rules) ''/out'' scenario_regexps
        (Some \<lparr> chmod = Some chmod_ok, files = [] \<rparr>)
        \<lparr> assets = [''a.txt'', ''b.txt'', ''c.txt''], warnings = [], errors = [] \<rparr>)
      = [(''/out/a.txt'', JNull), (''/out/b.txt'', JStr ''755''), (''/out/c.txt'', JNum (- 1))]
 \<and> files_after (afterEmit slash_join (map Some odd_permissions_rules) ''/out'' scenario_regexps
        (Some \<lparr> chmod = Some chmod_ok, files = [] \<rparr>)
        \<lparr> assets = [''a.txt'', ''b.txt'', ''c.txt''], warnings = [], errors = [] \<rparr>)
      = Some [(''/out/a.txt'', JNull), (''/out/b.txt'', JStr ''755''), (''/out/c.txt'', JNum (- 1))]
 \<and> issued slash_join (map Some odd_permissions_rules) ''/out'' chmod_ok scenario_regexps []
        [''a.txt'', ''b.txt'', ''c.txt'']
      = [((''/out/a.txt'', JNull), CallsBack 0 None), ((''/out/b.txt'', JStr ''755''), CallsBack 0 None),
         ((''/out/c.txt'', JNum (- 1)), CallsBack 0 None)]
 \<and> operations slash_join (map Some odd_permissions_rules) ''/out'' scenario_regexps
        [''a.txt'', ''b.txt'', ''c.txt''] ! 2 = (''/out/c.txt'', JNum (- 1))
 \<and> (''/out/c.txt'', JNum (- 1))
      \<in> set (chmod_calls (afterEmit slash_join (map Some odd_permissions_rules) ''/out'' scenario_regexps
        (Some \<lparr> chmod = Some chmod_ok, files = [] \<rparr>)
        \<lparr> assets = [''a.txt'', ''b.txt'', ''c.txt''], warnings = [], errors = [] \<rparr>))"
proof -
  let ?r = "JObject [(''permissions'', JNull), (''patterns'', JStr ''a.txt'')]"
  let ?r1 = "JObject [(''permissions'', JStr ''755''), (''patterns'', JStr ''b.txt'')]"
  let ?rule = "\<lparr> permissions = JNum (- 1), patterns = [Some (JStr ''c.txt'')] \<rparr>"
  let ?ofs = "\<lparr> chmod = Some chmod_ok, files = [] :: (string \<times> jsval) list \<rparr>"
  let ?c = "\<lparr> assets = [''a.txt'', ''b.txt'', ''c.txt''], warnings = [], errors = [] \<rparr>"
  let ?res = "afterEmit slash_join (map Some odd_permissions_rules) ''/out'' scenario_regexps (Some ?ofs) ?c"
  let ?ops = "operations slash_join (map Some odd_permissions_rules) ''/out'' scenario_regexps (assets ?c)"
  let ?resolved = "resolved scenario_regexps (map Some odd_permissions_rules) (assets ?c)"
  note t1 = only_undefined_permissions_are_rejected
     [where r = rule_without_permissions and i = 1 and options = odd_permissions_options
        and constructed = "map Some odd_permissions_rules"
        and j = 1 and ?r1.0 = ?r1 and ofs = ?ofs and f = chmod_ok and join = slash_join
        and rules = "map Some odd_permissions_rules" and out = "''/out''" and rs = scenario_regexps
        and c = ?c and a = "''c.txt''" and ?r0.0 = ?rule and recorder = ?ofs and g = chmod_ok
        and dense = odd_permissions_rules and a' = "''c.txt''" and ?r0' = ?rule
        and rs' = scenario_regexps]
  note t2 = only_undefined_permissions_are_rejected
     [where r = ?r and i = 0 and options = odd_permissions_options
        and constructed = "map Some odd_permissions_rules"
        and j = 1 and ?r1.0 = ?r1 and ofs = ?ofs and f = chmod_ok and join = slash_join
        and rules = "map Some odd_permissions_rules" and out = "''/out''" and rs = scenario_regexps
        and c = ?c and a = "''c.txt''" and ?r0.0 = ?rule and recorder = ?ofs and g = chmod_ok
        and dense = odd_permissions_rules and a' = "''c.txt''" and ?r0' = ?rule
        and rs' = scenario_regexps]
  have res: "?resolved
     = [(''a.txt'', \<lparr> permissions = JNull, patterns = [Some (JStr ''a.txt'')] \<rparr>),
        (''b.txt'', \<lparr> permissions = JStr ''755'', patterns = [Some (JStr ''b.txt'')] \<rparr>),
        (''c.txt'', ?rule)]"
    by (simp only: compilation.simps odd_permissions_resolved)
  have ops: "?ops = [(''/out/a.txt'', JNull), (''/out/b.txt'', JStr ''755''), (''/out/c.txt'', JNum (- 1))]"
    by (simp only: compilation.simps odd_permissions_operations)
  have h1: "is_object rule_without_permissions" "field rule_without_permissions ''permissions'' = JUndefined"
    by (simp_all add: rule_without_permissions_def field_def)
  have h2: "is_object ?r \<and> field ?r ''permissions'' \<noteq> JUndefined \<and> pattern_shape (field ?r ''patterns'')"
    by (simp add: field_def)
  have h3: "constructor odd_permissions_options = Inr (map Some odd_permissions_rules)
      \<and> 1 < length (map Some odd_permissions_rules)
      \<and> elements (field odd_permissions_options ''rules'') ! 1 = Some ?r1"
    by (simp add: odd_permissions_constructor) (simp add: odd_permissions_rules_def
          odd_permissions_options_def field_def)
  have h4: "chmod ?ofs = Some chmod_ok" by simp
  have h4a: "2 < length ?resolved" by (simp only: res) simp
  have h4b: "(''c.txt'', ?rule) \<in> set ?resolved" by (simp only: res) simp
  have h5: "chmod ?ofs = Some chmod_ok \<and> (\<forall>fs p m. snd (chmod_ok fs p m) = fs @ [(p, m)])
      \<and> (''c.txt'', ?rule) \<in> set ?resolved"
    using h4b by (simp add: chmod_ok_def del: resolved.simps)
  have h6: "chmod ?ofs = Some chmod_ok \<and> unflagged scenario_regexps odd_permissions_rules
      \<and> matchingRule scenario_regexps (map Some odd_permissions_rules) ''c.txt''
            = (Inr (Some ?rule), scenario_regexps)
      \<and> ''c.txt'' \<in> set (assets ?c)"
    by (simp add: odd_permissions_unflagged matchingRule_unflagged odd_permissions_match_results)
  have m: "spec_rule_message PermissionsMissing 1
        = ''SetFilePermissionsPlugin: \"permissions\" option is required for rule at index 1.''"
    by (simp add: show_nat.simps digit_char_def)
  from t1 h1 have "normalize_rule rule_without_permissions 1
      = Inl (Error (spec_rule_message PermissionsMissing 1))"
    by blast
  then have a: "normalize_rule rule_without_permissions 1
     = Inl (Error ''SetFilePermissionsPlugin: \"permissions\" option is required for rule at index 1.'')"
    by (simp only: m)
  from t2 h2 have "normalize_rule ?r 0 = Inr \<lparr> permissions = field ?r ''permissions'',
            patterns = (case field ?r ''patterns'' of JArray xs \<Rightarrow> xs | p \<Rightarrow> [Some p]) \<rparr>"
    by blast
  then have b: "normalize_rule ?r 0 = Inr \<lparr> permissions = JNull, patterns = [Some (JStr ''a.txt'')] \<rparr>"
    by (simp add: field_def)
  from t1 h3 have "\<exists>rule. map Some odd_permissions_rules ! 1 = Some rule
      \<and> permissions rule = field ?r1 ''permissions''"
    by blast
  then have c: "\<exists>rule. map Some odd_permissions_rules ! 1 = Some rule \<and> permissions rule = JStr ''755''"
    by (simp add: field_def)
  from t1 h4 have d: "chmod_calls ?res = ?ops"
    and d2: "files_after ?res = Some (received chmod_ok (files ?ofs) ?ops)"
    and i: "issued slash_join (map Some odd_permissions_rules) ''/out'' chmod_ok scenario_regexps
              (files ?ofs) (assets ?c) = zip ?ops (answers chmod_ok (files ?ofs) ?ops)"
    by blast+
  from t1 h4 h4a have k: "?ops ! 2 = (slash_join ''/out'' (fst (?resolved ! 2)),
                                     permissions (snd (?resolved ! 2)))"
    by blast
  from t1 h4 h4b have n1: "(slash_join ''/out'' ''c.txt'', permissions ?rule) \<in> set (chmod_calls ?res)"
    by blast
  from t1 h5 have e: "files_after ?res = Some (files ?ofs @ ?ops)"
    by blast
  from t1 h6 have n2: "(slash_join ''/out'' ''c.txt'', permissions ?rule) \<in> set (chmod_calls ?res)"
    by blast
  from d ops have d': "chmod_calls ?res
      = [(''/out/a.txt'', JNull), (''/out/b.txt'', JStr ''755''), (''/out/c.txt'', JNum (- 1))]"
    by simp
  from e ops have e': "files_after ?res
      = Some [(''/out/a.txt'', JNull), (''/out/b.txt'', JStr ''755''), (''/out/c.txt'', JNum (- 1))]"
    by simp
  from d2 ops have d2': "files_after ?res
      = Some [(''/out/a.txt'', JNull), (''/out/b.txt'', JStr ''755''), (''/out/c.txt'', JNum (- 1))]"
    by (simp add: received_chmod_ok del: received.simps)
  from i have i': "issued slash_join (map Some odd_permissions_rules) ''/out'' chmod_ok scenario_regexps []
        [''a.txt'', ''b.txt'', ''c.txt'']
      = [((''/out/a.txt'', JNull), CallsBack 0 None), ((''/out/b.txt'', JStr ''755''), CallsBack 0 None),
         ((''/out/c.txt'', JNum (- 1)), CallsBack 0 None)]"
    unfolding ops by (simp add: chmod_ok_def)
  from k have k': "operations slash_join (map Some odd_permissions_rules) ''/out'' scenario_regexps
        [''a.txt'', ''b.txt'', ''c.txt''] ! 2 = (''/out/c.txt'', JNum (- 1))"
    unfolding res by (simp add: slash_join_def del: resolved.simps)
  from n1 n2 have n': "(''/out/c.txt'', JNum (- 1)) \<in> set (chmod_calls ?res)"
    by (simp add: slash_join_def)
  from a b c d' d2' e' i' k' n' h3 show ?thesis by simp
qed

end
